theory Spec2Isabelle
  imports Main "HOL-Library.Code_Target_Nat"
begin

section \<open>Hiatus detector: a shallow embedding of \<open>detector.py\<close>\<close>

text \<open>
  Python strings are sequences of Unicode code points; a code point is a natural number and
  a string a list of them.  Offsets and cluster indices are list positions, as in the source.
\<close>

type_synonym ustr = "nat list"

subsection \<open>The \<open>unicodedata\<close> interface\<close>

text \<open>
  The detector reads the Unicode Character Database through Python's \<open>unicodedata\<close> module
  and the \<open>str\<close> methods \<open>lower\<close> and \<open>isspace\<close>.  None of that is code of the
  repository, so the functions it calls are the fields of a record that every definition
  below takes as its first argument:
  \<^item> \<open>combining c\<close> is \<open>unicodedata.combining(c)\<close>, the canonical combining class;
  \<^item> \<open>normalize_NFC\<close>, \<open>normalize_NFD\<close>, \<open>normalize_NFKD\<close> are
    \<open>unicodedata.normalize(form, s)\<close>;
  \<^item> \<open>decomposition c\<close> is \<open>unicodedata.decomposition(c)\<close>, the decomposition mapping as
    a string of hexadecimal code points (empty when there is none);
  \<^item> \<open>category c\<close> is \<open>unicodedata.category(c)\<close>, the two-letter general category;
  \<^item> \<open>isspace c\<close> and \<open>lower c\<close> are \<open>c.isspace()\<close> and \<open>c.lower()\<close> on a
    one-character string; \<open>lower\<close> returns a string.
\<close>

record unicodedata =
  combining :: "nat \<Rightarrow> nat"
  normalize_NFC :: "ustr \<Rightarrow> ustr"
  normalize_NFD :: "ustr \<Rightarrow> ustr"
  normalize_NFKD :: "ustr \<Rightarrow> ustr"
  decomposition :: "nat \<Rightarrow> string"
  category :: "nat \<Rightarrow> string"
  isspace :: "nat \<Rightarrow> bool"
  lower :: "nat \<Rightarrow> ustr"

subsection \<open>String helpers of Python\<close>

text \<open>\<open>s.startswith(p)\<close>.\<close>

fun startswith :: "'a list \<Rightarrow> 'a list \<Rightarrow> bool" where
  "startswith s [] = True"
| "startswith [] (p # ps) = False"
| "startswith (x # xs) (p # ps) = (x = p \<and> startswith xs ps)"

text \<open>\<open>needle in s\<close> on strings: \<open>needle\<close> occurs in \<open>s\<close> as a contiguous substring.\<close>

fun str_in :: "'a list \<Rightarrow> 'a list \<Rightarrow> bool" where
  "str_in needle [] = (needle = [])"
| "str_in needle (x # xs) = (startswith (x # xs) needle \<or> str_in needle xs)"

text \<open>\<open>s[a:b]\<close> for offsets \<open>0 \<le> a\<close>, \<open>0 \<le> b\<close>; empty when \<open>b \<le> a\<close>.\<close>

definition slice :: "'a list \<Rightarrow> nat \<Rightarrow> nat \<Rightarrow> 'a list" where
  "slice s a b = take (b - a) (drop a s)"

text \<open>The code points of an ASCII literal of the source.\<close>

definition cps :: "string \<Rightarrow> ustr" where
  "cps s = map of_char s"

subsection \<open>Configuration tables\<close>

definition DIPHTHONGS :: "ustr set" where
  "DIPHTHONGS = {[0x3B1, 0x3B9], [0x3B1, 0x3C5], [0x3B5, 0x3B9], [0x3B5, 0x3C5],
                 [0x3BF, 0x3B9], [0x3BF, 0x3C5], [0x3C5, 0x3B9], [0x3C9, 0x3B9],
                 [0x1FC3], [0x1FF3]}"

definition PRECOMPOSED_DIAERESIS :: "nat set" where
  "PRECOMPOSED_DIAERESIS = {0x3CA, 0x390, 0x3CB, 0x3B0, 0x3AA, 0x3AB}"

definition COMBINING_DIAERESIS :: nat where
  "COMBINING_DIAERESIS = 0x308"

definition IOTA_SUBSCRIPT :: nat where
  "IOTA_SUBSCRIPT = 0x345"

definition BREATHINGS :: "nat set" where
  "BREATHINGS = {0x313, 0x314}"

definition PRECOMPOSED_IOTA_SUBS :: "ustr set" where
  "PRECOMPOSED_IOTA_SUBS =
    {[0x1FB3], [0x1FB4], [0x1FB2], [0x1FB7], [0x1F80], [0x1F81], [0x1F82], [0x1F83],
     [0x1F84], [0x1F85], [0x1F86], [0x1F87],
     [0x1FC3], [0x1FC4], [0x1FC2], [0x1FC7], [0x1F90], [0x1F91], [0x1F92], [0x1F93],
     [0x1F94], [0x1F95], [0x1F96], [0x1F97],
     [0x1FF3], [0x1FF4], [0x1FF2], [0x1FF7], [0x1FA0], [0x1FA1], [0x1FA2], [0x1FA3],
     [0x1FA4], [0x1FA5], [0x1FA6], [0x1FA7]}"

definition BASE_VOWELS :: ustr where
  "BASE_VOWELS = [0x3B1, 0x3B5, 0x3B7, 0x3B9, 0x3BF, 0x3C5, 0x3C9]"

definition NEWLINE :: nat where
  "NEWLINE = 0x0A"

subsection \<open>Grapheme cluster helpers\<close>

record cluster =
  c_text :: ustr
  c_start :: nat
  c_end :: nat

text \<open>
  \<open>grapheme_clusters\<close>: the outer loop takes one code point, the inner loop every combining
  code point after it.  \<open>clusters_from db start s\<close> is the loop at offset \<open>start\<close> with
  \<open>s\<close> the text from there on.
\<close>

function clusters_from :: "unicodedata \<Rightarrow> nat \<Rightarrow> ustr \<Rightarrow> cluster list" where
  "clusters_from db start [] = []"
| "clusters_from db start (c # rest) =
     (let marks = takeWhile (\<lambda>x. combining db x \<noteq> 0) rest;
          i = start + 1 + length marks
      in \<lparr>c_text = c # marks, c_start = start, c_end = i\<rparr>
           # clusters_from db i (dropWhile (\<lambda>x. combining db x \<noteq> 0) rest))"
  by pat_completeness auto
termination
  by (relation "measure (\<lambda>(db, start, s). length s)")
     (auto simp: length_dropWhile_le less_Suc_eq_le)

definition grapheme_clusters :: "unicodedata \<Rightarrow> ustr \<Rightarrow> cluster list" where
  "grapheme_clusters db s = clusters_from db 0 s"

definition nfd_bases :: "unicodedata \<Rightarrow> ustr \<Rightarrow> ustr" where
  "nfd_bases db cluster_text =
     filter (\<lambda>ch. combining db ch = 0) (normalize_NFD db cluster_text)"

definition base_letter :: "unicodedata \<Rightarrow> ustr \<Rightarrow> ustr" where
  "base_letter db cluster_text =
     (case nfd_bases db cluster_text of [] \<Rightarrow> [] | ch # _ \<Rightarrow> lower db ch)"

definition contains_combining_diaeresis :: "unicodedata \<Rightarrow> ustr \<Rightarrow> bool" where
  "contains_combining_diaeresis db cluster_text =
     (if \<exists>ch \<in> set cluster_text. ch \<in> PRECOMPOSED_DIAERESIS then True
      else COMBINING_DIAERESIS \<in> set (normalize_NFD db cluster_text))"

definition contains_iota_subscript :: "unicodedata \<Rightarrow> ustr \<Rightarrow> bool" where
  "contains_iota_subscript db cluster_text =
     (if IOTA_SUBSCRIPT \<in> set (normalize_NFD db cluster_text) then True
      else if IOTA_SUBSCRIPT \<in> set (normalize_NFKD db cluster_text) then True
      else if \<exists>ch \<in> set cluster_text.
                decomposition db ch \<noteq> [] \<and> str_in ''0345'' (decomposition db ch) then True
      else if cluster_text \<in> PRECOMPOSED_IOTA_SUBS then True
      else False)"

definition contains_breathing :: "unicodedata \<Rightarrow> ustr \<Rightarrow> bool" where
  "contains_breathing db cluster_text =
     (\<exists>b \<in> BREATHINGS. b \<in> set (normalize_NFD db cluster_text))"

definition is_vowel_cluster :: "unicodedata \<Rightarrow> ustr \<Rightarrow> bool" where
  "is_vowel_cluster db cluster_text =
     (\<exists>base \<in> set (nfd_bases db cluster_text). str_in (lower db base) BASE_VOWELS)"

definition is_punct_or_space_cluster :: "unicodedata \<Rightarrow> ustr \<Rightarrow> bool" where
  "is_punct_or_space_cluster db cluster_text =
     (\<forall>ch \<in> set cluster_text.
        isspace db ch \<or> startswith (category db ch) ''P'' \<or> startswith (category db ch) ''S'')"

definition only_punct_space_between :: "unicodedata \<Rightarrow> ustr \<Rightarrow> nat \<Rightarrow> nat \<Rightarrow> bool" where
  "only_punct_space_between db txt a b =
     (\<forall>ch \<in> set (slice txt a b).
        \<not> (startswith (category db ch) ''L'' \<or> startswith (category db ch) ''N''))"

subsection \<open>Core detection\<close>

text \<open>A cluster after the loop \<open>c['line'] = line_number_at(c['start'])\<close>.\<close>

record lcluster = cluster +
  c_line :: nat

datatype kind = IntraWord | InterWord | AcrossLine

text \<open>The dictionary appended to \<open>occurrences\<close> by the scanning loop.\<close>

record raw_occurrence =
  kind :: kind
  start_pos :: nat
  end_pos :: nat
  snippet :: ustr
  cluster_i_text :: ustr
  cluster_j_text :: ustr
  line_i :: nat
  line_j :: nat
  i_index :: nat
  j_index :: nat
  intervening :: ustr

text \<open>The same dictionary once the expansion loop has added its four keys.\<close>

record occurrence = raw_occurrence +
  vowel_i_indices :: "nat list"
  vowel_j_indices :: "nat list"
  vowel_i_text :: ustr
  vowel_j_text :: ustr

text \<open>\<open>text.count("\n", 0, idx)\<close>.\<close>

definition line_number_at :: "ustr \<Rightarrow> nat \<Rightarrow> nat" where
  "line_number_at txt idx = count_list (take idx txt) NEWLINE"

definition with_lines :: "ustr \<Rightarrow> cluster list \<Rightarrow> lcluster list" where
  "with_lines txt cs =
     map (\<lambda>c. \<lparr>c_text = c_text c, c_start = c_start c, c_end = c_end c,
                c_line = line_number_at txt (c_start c)\<rparr>) cs"

text \<open>\<open>line_to_idxs[ln]\<close>: the cluster indices of line \<open>ln\<close>, in increasing order.\<close>

definition line_to_idxs :: "lcluster list \<Rightarrow> nat \<Rightarrow> nat list" where
  "line_to_idxs clusters ln =
     filter (\<lambda>idx. c_line (clusters ! idx) = ln) [0..<length clusters]"

text \<open>
  The loop over \<open>idxs\<close> that computes \<open>first\<close> and \<open>last\<close> for one line; the state is the
  pair \<open>(first, last)\<close>, both \<open>None\<close> at the start.
\<close>

definition first_last_step ::
  "unicodedata \<Rightarrow> lcluster list \<Rightarrow> nat \<Rightarrow> nat option \<times> nat option \<Rightarrow> nat option \<times> nat option"
where
  "first_last_step db clusters idx st =
     (if is_punct_or_space_cluster db (c_text (clusters ! idx)) then st
      else ((if fst st = None then Some idx else fst st), Some idx))"

definition first_last ::
  "unicodedata \<Rightarrow> lcluster list \<Rightarrow> nat list \<Rightarrow> nat option \<times> nat option" where
  "first_last db clusters idxs = fold (first_last_step db clusters) idxs (None, None)"

text \<open>
  \<open>first_nonpunct.get(ln)\<close> and \<open>last_nonpunct.get(ln)\<close>: \<open>None\<close> for a line without clusters
  (no key) and for a line whose clusters are all punctuation or space (the stored \<open>None\<close>).
\<close>

definition first_nonpunct :: "unicodedata \<Rightarrow> lcluster list \<Rightarrow> nat \<Rightarrow> nat option" where
  "first_nonpunct db clusters ln = fst (first_last db clusters (line_to_idxs clusters ln))"

definition last_nonpunct :: "unicodedata \<Rightarrow> lcluster list \<Rightarrow> nat \<Rightarrow> nat option" where
  "last_nonpunct db clusters ln = snd (first_last db clusters (line_to_idxs clusters ln))"

text \<open>The classification of the pair \<open>(i, j)\<close>: the value of \<open>kind\<close> at line 160.\<close>

definition classify_kind ::
  "unicodedata \<Rightarrow> ustr \<Rightarrow> lcluster list \<Rightarrow> nat \<Rightarrow> nat \<Rightarrow> kind option" where
  "classify_kind db txt clusters i j =
     (let ci = clusters ! i; cj = clusters ! j;
          interv = slice txt (c_end ci) (c_start cj)
      in if NEWLINE \<in> set interv then
           (if c_line cj = c_line ci + 1 then
              (let last_idx = last_nonpunct db clusters (c_line ci);
                   first_idx = first_nonpunct db clusters (c_line cj)
               in if last_idx \<noteq> None \<and> first_idx \<noteq> None
                     \<and> last_idx = Some i \<and> first_idx = Some j
                  then Some AcrossLine else None)
            else None)
         else if interv = [] then Some IntraWord
         else if only_punct_space_between db txt (c_end ci) (c_start cj)
                 \<and> c_line ci = c_line cj then Some InterWord
         else None)"

text \<open>The value of \<open>is_diph\<close> at line 178, the four assignments in the order of the source.\<close>

definition diphthong_decision ::
  "unicodedata \<Rightarrow> bool \<Rightarrow> kind \<Rightarrow> ustr \<Rightarrow> ustr \<Rightarrow> bool" where
  "diphthong_decision db treat_iota_as_diphthong k ti tj =
     (if k = IntraWord then
        (let pair = base_letter db ti @ base_letter db tj;
             d1 = (if pair \<in> DIPHTHONGS then True else False);
             d2 = (if treat_iota_as_diphthong
                      \<and> (contains_iota_subscript db ti \<or> contains_iota_subscript db tj)
                   then True else d1);
             d3 = (if contains_combining_diaeresis db tj then False else d2);
             d4 = (if contains_breathing db ti then False else d3)
         in d4)
      else False)"

definition make_occurrence ::
  "ustr \<Rightarrow> lcluster list \<Rightarrow> kind \<Rightarrow> nat \<Rightarrow> nat \<Rightarrow> raw_occurrence" where
  "make_occurrence txt clusters k i j =
     (let ci = clusters ! i; cj = clusters ! j
      in \<lparr>kind = k, start_pos = c_start ci, end_pos = c_end cj,
          snippet = slice txt (c_start ci) (c_end cj),
          cluster_i_text = c_text ci, cluster_j_text = c_text cj,
          line_i = c_line ci + 1, line_j = c_line cj + 1,
          i_index = i, j_index = j,
          intervening = slice txt (c_end ci) (c_start cj)\<rparr>)"

text \<open>
  The inner loop from start cluster \<open>i\<close> over the remaining candidates \<open>js\<close>: \<open>continue\<close> is
  the recursive call, \<open>break\<close> without an append is \<open>None\<close>, append and \<open>break\<close> is \<open>Some\<close>.
\<close>

fun scan_from ::
  "unicodedata \<Rightarrow> ustr \<Rightarrow> lcluster list \<Rightarrow> bool \<Rightarrow> nat \<Rightarrow> nat list \<Rightarrow> raw_occurrence option"
where
  "scan_from db txt clusters iota i [] = None"
| "scan_from db txt clusters iota i (j # js) =
     (if \<not> is_vowel_cluster db (c_text (clusters ! j)) then scan_from db txt clusters iota i js
      else case classify_kind db txt clusters i j of
             None \<Rightarrow> scan_from db txt clusters iota i js
           | Some k \<Rightarrow>
               if diphthong_decision db iota k (c_text (clusters ! i)) (c_text (clusters ! j))
               then None
               else Some (make_occurrence txt clusters k i j))"

text \<open>\<open>range(i+1, min(i+1+max_cluster_lookahead, len(clusters)))\<close>; the bound is a Python int.\<close>

definition lookahead_range :: "nat \<Rightarrow> int \<Rightarrow> nat \<Rightarrow> nat list" where
  "lookahead_range i max_cluster_lookahead n =
     [i + 1 ..< nat (min (int i + 1 + max_cluster_lookahead) (int n))]"

definition scan_start ::
  "unicodedata \<Rightarrow> ustr \<Rightarrow> lcluster list \<Rightarrow> bool \<Rightarrow> int \<Rightarrow> nat \<Rightarrow> raw_occurrence option"
where
  "scan_start db txt clusters iota max_cluster_lookahead i =
     (if \<not> is_vowel_cluster db (c_text (clusters ! i)) then None
      else scan_from db txt clusters iota i
             (lookahead_range i max_cluster_lookahead (length clusters)))"

text \<open>The outer loop: the start clusters in increasing order, each appending at most once.\<close>

definition scan_occurrences ::
  "unicodedata \<Rightarrow> ustr \<Rightarrow> lcluster list \<Rightarrow> bool \<Rightarrow> int \<Rightarrow> raw_occurrence list" where
  "scan_occurrences db txt clusters iota max_cluster_lookahead =
     List.map_filter (scan_start db txt clusters iota max_cluster_lookahead)
       [0..<length clusters]"

subsection \<open>Span expansion\<close>

text \<open>
  Cluster indices are natural numbers, so the test \<open>0 <= idx\<close> of \<open>safe_base\<close> holds by
  typing; the differences \<open>i_idx - 1\<close> and \<open>j_idx - 1\<close> are compared as integers.
\<close>

definition safe_base :: "unicodedata \<Rightarrow> lcluster list \<Rightarrow> nat \<Rightarrow> ustr" where
  "safe_base db clusters idx =
     (if idx < length clusters then base_letter db (c_text (clusters ! idx)) else [])"

definition grown_i :: "unicodedata \<Rightarrow> lcluster list \<Rightarrow> nat \<Rightarrow> nat \<Rightarrow> nat list" where
  "grown_i db clusters i_idx j_idx =
     (let v0 = [i_idx];
          v1 = (if i_idx + 1 < j_idx
                   \<and> safe_base db clusters i_idx @ safe_base db clusters (i_idx + 1) \<in> DIPHTHONGS
                then [i_idx, i_idx + 1] else v0);
          v2 = (if int i_idx - 1 \<ge> 0
                   \<and> safe_base db clusters (i_idx - 1) @ safe_base db clusters i_idx \<in> DIPHTHONGS
                then [i_idx - 1, i_idx] else v1)
      in v2)"

definition grown_j :: "unicodedata \<Rightarrow> lcluster list \<Rightarrow> nat \<Rightarrow> nat \<Rightarrow> nat list" where
  "grown_j db clusters i_idx j_idx =
     (let v0 = [j_idx];
          v1 = (if int j_idx - 1 > int i_idx
                   \<and> safe_base db clusters (j_idx - 1) @ safe_base db clusters j_idx \<in> DIPHTHONGS
                then [j_idx - 1, j_idx] else v0);
          v2 = (if j_idx + 1 < length clusters
                   \<and> safe_base db clusters j_idx @ safe_base db clusters (j_idx + 1) \<in> DIPHTHONGS
                   \<and> j_idx + 1 > i_idx
                then v1 @ [j_idx + 1] else v1)
      in v2)"

text \<open>The two index lists stored by lines 230 and 231.\<close>

definition expand_spans ::
  "unicodedata \<Rightarrow> lcluster list \<Rightarrow> nat \<Rightarrow> nat \<Rightarrow> nat list \<times> nat list" where
  "expand_spans db clusters i_idx j_idx =
     (let vi = grown_i db clusters i_idx j_idx;
          vj = grown_j db clusters i_idx j_idx
      in if set vi \<inter> set vj \<noteq> {} then ([i_idx], filter (\<lambda>k. k \<noteq> i_idx) vj)
         else (vi, vj))"

definition join_texts :: "lcluster list \<Rightarrow> nat list \<Rightarrow> ustr" where
  "join_texts clusters ks = concat (map (\<lambda>k. c_text (clusters ! k)) ks)"

definition expand_occurrence ::
  "unicodedata \<Rightarrow> lcluster list \<Rightarrow> raw_occurrence \<Rightarrow> occurrence" where
  "expand_occurrence db clusters occ =
     (let vs = expand_spans db clusters (i_index occ) (j_index occ)
      in raw_occurrence.extend occ
           \<lparr>vowel_i_indices = fst vs, vowel_j_indices = snd vs,
            vowel_i_text = join_texts clusters (fst vs),
            vowel_j_text = join_texts clusters (snd vs)\<rparr>)"

subsection \<open>Annotation\<close>

text \<open>\<open>html.escape(s)\<close> with its default \<open>quote=True\<close>: five characters are replaced.\<close>

definition html_escape :: "ustr \<Rightarrow> ustr" where
  "html_escape s =
     concat (map (\<lambda>c. if c = 0x26 then cps ''&amp;''
                       else if c = 0x3C then cps ''&lt;''
                       else if c = 0x3E then cps ''&gt;''
                       else if c = 0x22 then cps ''&quot;''
                       else if c = 0x27 then cps ''&#x27;''
                       else [c]) s)"

text \<open>
  \<open>cluster_marks[k]\<close>: the numbers (from 1) of the occurrences whose index lists hold \<open>k\<close>,
  in the order of the appends; the key \<open>k\<close> exists iff the list is not empty.
\<close>

definition cluster_marks :: "occurrence list \<Rightarrow> nat \<Rightarrow> nat list" where
  "cluster_marks occurrences k =
     concat (map (\<lambda>(n, occ). map (\<lambda>_. n)
                    (filter (\<lambda>k'. k' = k) (vowel_i_indices occ @ vowel_j_indices occ)))
                 (zip [1..<Suc (length occurrences)] occurrences))"

definition span_class :: "kind \<Rightarrow> ustr \<times> ustr" where
  "span_class k =
     (if k = AcrossLine then (cps ''hiatus-across'', cps ''across-line hiatus'')
      else if k = InterWord then (cps ''hiatus-inter'', cps ''interword hiatus'')
      else (cps ''hiatus-intra'', cps ''intra-word hiatus''))"

text \<open>One element of \<open>html_parts\<close>; \<open>min\<close> of a non-empty list is a fold.\<close>

definition html_part :: "occurrence list \<Rightarrow> nat \<Rightarrow> lcluster \<Rightarrow> ustr" where
  "html_part occurrences k cl =
     (let esc = html_escape (c_text cl)
      in case cluster_marks occurrences k of
           [] \<Rightarrow> esc
         | n # ns \<Rightarrow>
             (let occ_id = fold min ns n;
                  occ = occurrences ! (occ_id - 1);
                  cls = fst (span_class (kind occ));
                  title = snd (span_class (kind occ))
              in cps ''<span class='' @ [0x22] @ cls @ [0x22] @ cps '' title='' @ [0x22]
                   @ html_escape title @ [0x22] @ cps ''>'' @ esc @ cps ''</span>''))"

definition annotate :: "lcluster list \<Rightarrow> occurrence list \<Rightarrow> ustr" where
  "annotate clusters occurrences =
     concat (map (\<lambda>(k, cl). html_part occurrences k cl) (zip [0..<length clusters] clusters))"

subsection \<open>The entry point\<close>

text \<open>The cluster sequence and the occurrence list computed from a text already in NFC.\<close>

definition line_clusters :: "unicodedata \<Rightarrow> ustr \<Rightarrow> lcluster list" where
  "line_clusters db txt = with_lines txt (grapheme_clusters db txt)"

definition occurrences_of :: "unicodedata \<Rightarrow> ustr \<Rightarrow> bool \<Rightarrow> int \<Rightarrow> occurrence list" where
  "occurrences_of db txt treat_iota_as_diphthong max_cluster_lookahead =
     (let clusters = line_clusters db txt
      in map (expand_occurrence db clusters)
           (scan_occurrences db txt clusters treat_iota_as_diphthong max_cluster_lookahead))"

definition detect_hiatus_in_text ::
  "unicodedata \<Rightarrow> ustr \<Rightarrow> bool \<Rightarrow> int \<Rightarrow> ustr \<times> occurrence list" where
  "detect_hiatus_in_text db inp treat_iota_as_diphthong max_cluster_lookahead =
     (let txt = normalize_NFC db inp;
          clusters = line_clusters db txt;
          occurrences = occurrences_of db txt treat_iota_as_diphthong max_cluster_lookahead
      in (annotate clusters occurrences, occurrences))"

subsection \<open>A fragment of the Unicode Character Database\<close>

text \<open>
  The theorems below hold for every \<open>unicodedata\<close> record.  To run the detector on
  concrete Greek text, \<open>greek_ucd\<close> tabulates the Unicode Character Database for the 47
  code points of \<open>ucd_code_points\<close> (line feed, space, seven combining marks, plain and
  accented Greek letters), a set closed under canonical decomposition and lower-casing:
  combining class, canonical decomposition (one step and full), general category, white
  space and lower-case mapping.  None of them has a compatibility decomposition, so NFKD is
  NFD there.  Normalisation follows the Unicode algorithm: decompose, put the combining
  marks in canonical order, and for NFC compose again from the left.

  The table is a fragment, and \<open>greek_ucd\<close> stands for Python's \<open>unicodedata\<close> only where the
  fragment suffices: on a text over \<open>ucd_code_points\<close> whose NFC form is again a text over
  \<open>ucd_code_points\<close>.  A code point outside the table is treated as unassigned, and
  \<open>ucd_composites\<close> holds the primary composites inside the table only, so a pair whose
  composite lies outside it (alpha and combining acute, say) is left decomposed by
  \<open>ucd_nfc\<close>.  Every text that a theorem below evaluates is inside the fragment: each
  example text is its own NFC form, except \<open>aei_decomposed\<close>, whose NFC form is \<open>aei\<close>
  (lemma \<open>example_texts_in_fragment\<close>).
\<close>

definition ucd_combining :: "nat \<Rightarrow> nat" where
  "ucd_combining c =
     (if c \<in> {0x300, 0x301, 0x308, 0x313, 0x314, 0x342} then 230
      else if c = 0x345 then 240 else 0)"

definition ucd_canonical :: "(nat \<times> ustr) list" where
  "ucd_canonical =
    [(0x3AD, [0x3B5, 0x301]), (0x3AE, [0x3B7, 0x301]), (0x3AF, [0x3B9, 0x301]),
     (0x3B0, [0x3C5, 0x308, 0x301]), (0x3CA, [0x3B9, 0x308]), (0x3CB, [0x3C5, 0x308]),
     (0x1F00, [0x3B1, 0x313]), (0x1F01, [0x3B1, 0x314]), (0x1F05, [0x3B1, 0x314, 0x301]),
     (0x1F09, [0x391, 0x314]), (0x1F0D, [0x391, 0x314, 0x301]), (0x1F30, [0x3B9, 0x313]),
     (0x1F36, [0x3B9, 0x313, 0x342]), (0x1F50, [0x3C5, 0x313]), (0x1F60, [0x3C9, 0x313]),
     (0x1F68, [0x3A9, 0x313]), (0x1F76, [0x3B9, 0x300]), (0x1FA0, [0x3C9, 0x313, 0x345]),
     (0x1FE6, [0x3C5, 0x342])]"

definition ucd_composites :: "((nat \<times> nat) \<times> nat) list" where
  "ucd_composites =
    [((0x3B5, 0x301), 0x3AD), ((0x3B7, 0x301), 0x3AE), ((0x3B9, 0x301), 0x3AF),
     ((0x3CB, 0x301), 0x3B0), ((0x3B9, 0x308), 0x3CA), ((0x3C5, 0x308), 0x3CB),
     ((0x3B1, 0x313), 0x1F00), ((0x3B1, 0x314), 0x1F01), ((0x1F01, 0x301), 0x1F05),
     ((0x391, 0x314), 0x1F09), ((0x1F09, 0x301), 0x1F0D), ((0x3B9, 0x313), 0x1F30),
     ((0x1F30, 0x342), 0x1F36), ((0x3C5, 0x313), 0x1F50), ((0x3C9, 0x313), 0x1F60),
     ((0x3A9, 0x313), 0x1F68), ((0x3B9, 0x300), 0x1F76), ((0x1F60, 0x345), 0x1FA0),
     ((0x3C5, 0x342), 0x1FE6)]"

definition ucd_mapping :: "(nat \<times> string) list" where
  "ucd_mapping =
    [(0x3AD, ''03B5 0301''), (0x3AE, ''03B7 0301''), (0x3AF, ''03B9 0301''),
     (0x3B0, ''03CB 0301''), (0x3CA, ''03B9 0308''), (0x3CB, ''03C5 0308''),
     (0x1F00, ''03B1 0313''), (0x1F01, ''03B1 0314''), (0x1F05, ''1F01 0301''),
     (0x1F09, ''0391 0314''), (0x1F0D, ''1F09 0301''), (0x1F30, ''03B9 0313''),
     (0x1F36, ''1F30 0342''), (0x1F50, ''03C5 0313''), (0x1F60, ''03C9 0313''),
     (0x1F68, ''03A9 0313''), (0x1F76, ''03B9 0300''), (0x1FA0, ''1F60 0345''),
     (0x1FE6, ''03C5 0342'')]"

definition ucd_category :: "nat \<Rightarrow> string" where
  "ucd_category c =
     (if c = 0xA then ''Cc''
      else if c = 0x20 then ''Zs''
      else if c \<in> {0x300, 0x301, 0x308, 0x313, 0x314, 0x342, 0x345} then ''Mn''
      else if c \<in> {0x391, 0x3A9, 0x1F09, 0x1F0D, 0x1F68} then ''Lu''
      else if c \<in> {0x3AD, 0x3AE, 0x3AF, 0x3B0, 0x3B1, 0x3B3, 0x3B4, 0x3B5, 0x3B7, 0x3B8, 0x3B9,
            0x3BA, 0x3BC, 0x3BD, 0x3BF, 0x3C0, 0x3C1, 0x3C2, 0x3C4, 0x3C5, 0x3C9, 0x3CA,
            0x3CB, 0x1F00, 0x1F01, 0x1F05, 0x1F30, 0x1F36, 0x1F50, 0x1F60, 0x1F76, 0x1FA0,
            0x1FE6} then ''Ll''
      else ''Cn'')"

definition ucd_lower :: "(nat \<times> ustr) list" where
  "ucd_lower =
    [(0x391, [0x3B1]), (0x3A9, [0x3C9]), (0x1F09, [0x1F01]), (0x1F0D, [0x1F05]),
     (0x1F68, [0x1F60])]"

definition ucd_isspace :: "nat \<Rightarrow> bool" where
  "ucd_isspace c = (c \<in> {0xA, 0x20})"

definition ucd_code_points :: "nat list" where
  "ucd_code_points =
    [0xA, 0x20, 0x300, 0x301, 0x308, 0x313, 0x314, 0x342, 0x345, 0x391, 0x3A9, 0x3AD,
     0x3AE, 0x3AF, 0x3B0, 0x3B1, 0x3B3, 0x3B4, 0x3B5, 0x3B7, 0x3B8, 0x3B9, 0x3BA, 0x3BC,
     0x3BD, 0x3BF, 0x3C0, 0x3C1, 0x3C2, 0x3C4, 0x3C5, 0x3C9, 0x3CA, 0x3CB, 0x1F00, 0x1F01,
     0x1F05, 0x1F09, 0x1F0D, 0x1F30, 0x1F36, 0x1F50, 0x1F60, 0x1F68, 0x1F76, 0x1FA0,
     0x1FE6]"

definition ucd_decompose :: "nat \<Rightarrow> ustr" where
  "ucd_decompose c = (case map_of ucd_canonical c of None \<Rightarrow> [c] | Some d \<Rightarrow> d)"

text \<open>
  Canonical ordering: \<open>acc\<close> is the text so far, last code point first; a combining mark
  moves left past the marks of a higher combining class.
\<close>

fun canonical_insert :: "nat \<Rightarrow> ustr \<Rightarrow> ustr" where
  "canonical_insert c [] = [c]"
| "canonical_insert c (y # acc) =
     (if ucd_combining c \<noteq> 0 \<and> ucd_combining c < ucd_combining y
      then y # canonical_insert c acc else c # y # acc)"

definition ucd_nfd :: "ustr \<Rightarrow> ustr" where
  "ucd_nfd s = rev (fold canonical_insert (concat (map ucd_decompose s)) [])"

text \<open>
  Canonical composition: the state is the finished output, the last starter and the marks
  that follow it without having combined with it.
\<close>

definition compose_step ::
  "nat \<Rightarrow> ustr \<times> nat option \<times> ustr \<Rightarrow> ustr \<times> nat option \<times> ustr" where
  "compose_step c st =
     (case st of (out, starter, pending) \<Rightarrow>
        (case starter of
           None \<Rightarrow> (if ucd_combining c = 0 then (out, Some c, []) else (out @ [c], None, []))
         | Some s \<Rightarrow>
             (let blocked = (pending \<noteq> []
                    \<and> (ucd_combining c = 0 \<or> ucd_combining c \<le> ucd_combining (last pending)))
              in case (if blocked then None else map_of ucd_composites (s, c)) of
                   Some p \<Rightarrow> (out, Some p, pending)
                 | None \<Rightarrow>
                     (if ucd_combining c = 0 then (out @ s # pending, Some c, [])
                      else (out, Some s, pending @ [c])))))"

definition ucd_nfc :: "ustr \<Rightarrow> ustr" where
  "ucd_nfc s =
     (case fold compose_step (ucd_nfd s) ([], None, []) of
        (out, starter, pending) \<Rightarrow>
          out @ (case starter of None \<Rightarrow> [] | Some s \<Rightarrow> s # pending))"

definition greek_ucd :: unicodedata where
  "greek_ucd =
     \<lparr>combining = ucd_combining,
      normalize_NFC = ucd_nfc,
      normalize_NFD = ucd_nfd,
      normalize_NFKD = ucd_nfd,
      decomposition = (\<lambda>c. case map_of ucd_mapping c of None \<Rightarrow> [] | Some d \<Rightarrow> d),
      category = ucd_category,
      isspace = ucd_isspace,
      lower = (\<lambda>c. case map_of ucd_lower c of None \<Rightarrow> [c] | Some l \<Rightarrow> l)\<rparr>"

subsection \<open>Hypotheses on the character database\<close>

text \<open>
  The character database is a parameter, so two facts of the Unicode Character Database
  that the span bound of the expansion step rests on are stated as a predicate on a text
  \<open>t\<close> (already normalised) and its clusters:
  \<^item> the base letter of a cluster, the lower-cased first starter of its canonical
    decomposition, is not an entry of \<open>DIPHTHONGS\<close>: those are two-letter strings and the
    precomposed eta and omega with ypogegrammeni, which decompose canonically and so are
    never a starter of a decomposed string;
  \<^item> a vowel cluster holds a code point of a letter or number category that is not white
    space: a code point whose canonical decomposition holds a Greek vowel letter is itself
    a letter.
  Both hold of the Unicode Character Database for every text.
\<close>

definition unicode_facts :: "unicodedata \<Rightarrow> ustr \<Rightarrow> bool" where
  "unicode_facts db t =
     (\<forall>c \<in> set (grapheme_clusters db t).
        base_letter db (c_text c) \<notin> DIPHTHONGS
        \<and> (is_vowel_cluster db (c_text c) \<longrightarrow>
             (\<exists>ch \<in> set (c_text c).
                (startswith (category db ch) ''L'' \<or> startswith (category db ch) ''N'')
                \<and> \<not> isspace db ch)))"

subsection \<open>Example texts\<close>

text \<open>
  Polytonic Greek words, each code point precomposed (NFC) unless said otherwise:
  \<^item> \<open>theou\<close>: theta, epsilon, omicron, upsilon with circumflex;
  \<^item> \<open>kai_eidon\<close>: kappa, alpha, iota with grave, space, epsilon, iota with smooth breathing
    and circumflex, delta, omicron, nu;
  \<^item> \<open>pneuma_hagion\<close>: pi, nu, epsilon, upsilon with circumflex, mu, alpha, line feed, alpha
    with rough breathing and acute, gamma, iota, omicron, nu;
  \<^item> \<open>haides\<close>: capital alpha with rough breathing and acute, iota, delta, eta, final sigma;
  \<^item> \<open>oide\<close>: capital omega with smooth breathing, iota, delta, eta with acute;
  \<^item> \<open>aei\<close>: alpha with smooth breathing, epsilon, iota with acute; \<open>aei_decomposed\<close> is
    the same word with its marks as separate combining code points (not NFC);
  \<^item> \<open>praus\<close>: pi, rho, alpha, upsilon with diaeresis and acute, final sigma.
\<close>

definition theou :: ustr where
  "theou = [0x3B8, 0x3B5, 0x3BF, 0x1FE6]"

definition kai_eidon :: ustr where
  "kai_eidon = [0x3BA, 0x3B1, 0x1F76, 0x20, 0x3B5, 0x1F36, 0x3B4, 0x3BF, 0x3BD]"

definition pneuma_hagion :: ustr where
  "pneuma_hagion =
     [0x3C0, 0x3BD, 0x3B5, 0x1FE6, 0x3BC, 0x3B1, 0xA, 0x1F05, 0x3B3, 0x3B9, 0x3BF, 0x3BD]"

definition haides :: ustr where
  "haides = [0x1F0D, 0x3B9, 0x3B4, 0x3B7, 0x3C2]"

definition oide :: ustr where
  "oide = [0x1F68, 0x3B9, 0x3B4, 0x3AE]"

definition aei :: ustr where
  "aei = [0x1F00, 0x3B5, 0x3AF]"

definition aei_decomposed :: ustr where
  "aei_decomposed = [0x3B1, 0x313, 0x3B5, 0x3B9, 0x301]"

definition praus :: ustr where
  "praus = [0x3C0, 0x3C1, 0x3B1, 0x3B0, 0x3C2]"

section \<open>Verification\<close>

subsection \<open>The scanner\<close>

lemma scan_from_SomeD:
  "scan_from db txt cl iota i js = Some occ \<Longrightarrow>
   \<exists>j \<in> set js. \<exists>k. is_vowel_cluster db (c_text (cl ! j))
      \<and> classify_kind db txt cl i j = Some k
      \<and> \<not> diphthong_decision db iota k (c_text (cl ! i)) (c_text (cl ! j))
      \<and> occ = make_occurrence txt cl k i j"
  by (induction js) (auto split: if_splits option.splits)

lemma make_occurrence_sel [simp]:
  "i_index (make_occurrence txt cl k i j) = i"
  "j_index (make_occurrence txt cl k i j) = j"
  "kind (make_occurrence txt cl k i j) = k"
  "start_pos (make_occurrence txt cl k i j) = c_start (cl ! i)"
  "end_pos (make_occurrence txt cl k i j) = c_end (cl ! j)"
  by (simp_all add: make_occurrence_def Let_def)

lemma expand_occurrence_sel [simp]:
  "i_index (expand_occurrence db cl occ) = i_index occ"
  "j_index (expand_occurrence db cl occ) = j_index occ"
  "kind (expand_occurrence db cl occ) = kind occ"
  "start_pos (expand_occurrence db cl occ) = start_pos occ"
  "end_pos (expand_occurrence db cl occ) = end_pos occ"
  "vowel_i_indices (expand_occurrence db cl occ) = fst (expand_spans db cl (i_index occ) (j_index occ))"
  "vowel_j_indices (expand_occurrence db cl occ) = snd (expand_spans db cl (i_index occ) (j_index occ))"
  by (simp_all add: expand_occurrence_def Let_def raw_occurrence.defs)

lemma lookahead_rangeD:
  "j \<in> set (lookahead_range i K n) \<Longrightarrow> i < j \<and> j < n \<and> int j - int i \<le> K"
  by (auto simp: lookahead_range_def)

lemma scan_start_SomeD:
  assumes "scan_start db txt cl iota K i = Some occ"
  shows "is_vowel_cluster db (c_text (cl ! i))"
    and "\<exists>j k. i < j \<and> j < length cl \<and> int j - int i \<le> K
           \<and> is_vowel_cluster db (c_text (cl ! j))
           \<and> classify_kind db txt cl i j = Some k
           \<and> \<not> diphthong_decision db iota k (c_text (cl ! i)) (c_text (cl ! j))
           \<and> occ = make_occurrence txt cl k i j"
proof -
  show v: "is_vowel_cluster db (c_text (cl ! i))"
    using assms by (auto simp: scan_start_def split: if_splits)
  from assms v have "scan_from db txt cl iota i (lookahead_range i K (length cl)) = Some occ"
    by (simp add: scan_start_def)
  from scan_from_SomeD[OF this] lookahead_rangeD
  show "\<exists>j k. i < j \<and> j < length cl \<and> int j - int i \<le> K
           \<and> is_vowel_cluster db (c_text (cl ! j))
           \<and> classify_kind db txt cl i j = Some k
           \<and> \<not> diphthong_decision db iota k (c_text (cl ! i)) (c_text (cl ! j))
           \<and> occ = make_occurrence txt cl k i j"
    by blast
qed

lemma scan_start_i_index:
  "scan_start db txt cl iota K i = Some occ \<Longrightarrow> i_index occ = i"
  by (drule scan_start_SomeD(2)) auto

lemma set_scan_occurrences:
  "set (scan_occurrences db txt cl iota K) =
     {occ. \<exists>i < length cl. scan_start db txt cl iota K i = Some occ}"
  by (auto simp: scan_occurrences_def map_filter_def image_iff) force

lemma map_i_index_scan_occurrences:
  "map i_index (scan_occurrences db txt cl iota K) =
     filter (\<lambda>i. scan_start db txt cl iota K i \<noteq> None) [0..<length cl]"
proof -
  have "map i_index (scan_occurrences db txt cl iota K) =
        map (\<lambda>i. i_index (the (scan_start db txt cl iota K i)))
          (filter (\<lambda>i. scan_start db txt cl iota K i \<noteq> None) [0..<length cl])"
    by (simp add: scan_occurrences_def map_filter_def comp_def)
  also have "\<dots> = map (\<lambda>i. i)
          (filter (\<lambda>i. scan_start db txt cl iota K i \<noteq> None) [0..<length cl])"
    by (rule map_cong) (auto dest: scan_start_i_index)
  finally show ?thesis by simp
qed

lemma snd_detect:
  "snd (detect_hiatus_in_text db inp iota K) =
     map (expand_occurrence db (line_clusters db (normalize_NFC db inp)))
       (scan_occurrences db (normalize_NFC db inp)
          (line_clusters db (normalize_NFC db inp)) iota K)"
  by (simp add: detect_hiatus_in_text_def occurrences_of_def Let_def)

lemma map_i_index_detect:
  "map i_index (snd (detect_hiatus_in_text db inp iota K)) =
     filter (\<lambda>i. scan_start db (normalize_NFC db inp)
                   (line_clusters db (normalize_NFC db inp)) iota K i \<noteq> None)
       [0..<length (line_clusters db (normalize_NFC db inp))]"
proof -
  have "map i_index (map (expand_occurrence db cl) xs) = map i_index xs" for cl xs
    by simp
  then show ?thesis
    unfolding snd_detect by (simp only: map_i_index_scan_occurrences)
qed

lemma length_line_clusters [simp]:
  "length (line_clusters db txt) = length (grapheme_clusters db txt)"
  by (simp add: line_clusters_def with_lines_def)

lemma detect_occD:
  assumes "occ \<in> set (snd (detect_hiatus_in_text db inp iota K))"
  shows "\<exists>raw i. occ = expand_occurrence db (line_clusters db (normalize_NFC db inp)) raw
           \<and> i < length (line_clusters db (normalize_NFC db inp))
           \<and> scan_start db (normalize_NFC db inp)
                (line_clusters db (normalize_NFC db inp)) iota K i = Some raw"
  using assms unfolding snd_detect set_map set_scan_occurrences by blast

subsection \<open>The grapheme segmenter\<close>

lemma clusters_from_Cons:
  "clusters_from db start (x # rest) =
     \<lparr>c_text = x # takeWhile (\<lambda>y. combining db y \<noteq> 0) rest, c_start = start,
      c_end = start + 1 + length (takeWhile (\<lambda>y. combining db y \<noteq> 0) rest)\<rparr>
     # clusters_from db (start + 1 + length (takeWhile (\<lambda>y. combining db y \<noteq> 0) rest))
         (dropWhile (\<lambda>y. combining db y \<noteq> 0) rest)"
  by (simp only: clusters_from.simps Let_def)

declare clusters_from.simps(2) [simp del]

lemma clusters_from_bounds:
  "c \<in> set (clusters_from db start s) \<Longrightarrow>
     start \<le> c_start c \<and> c_start c < c_end c \<and> c_end c \<le> start + length s
     \<and> c_text c = take (c_end c - c_start c) (drop (c_start c - start) s)"
proof (induction db start s arbitrary: c rule: clusters_from.induct)
  case (1 db start)
  then show ?case by simp
next
  case (2 db start x rest)
  let ?P = "\<lambda>y. combining db y \<noteq> 0"
  let ?marks = "takeWhile ?P rest"
  let ?i = "start + 1 + length ?marks"
  have len: "length ?marks + length (dropWhile ?P rest) = length rest"
    by (metis length_append takeWhile_dropWhile_id)
  from "2.prems" have "c = \<lparr>c_text = x # ?marks, c_start = start, c_end = ?i\<rparr>
      \<or> c \<in> set (clusters_from db ?i (dropWhile ?P rest))"
    by (simp add: clusters_from_Cons)
  then consider
      (hd) "c = \<lparr>c_text = x # ?marks, c_start = start, c_end = ?i\<rparr>"
    | (tl) "c \<in> set (clusters_from db ?i (dropWhile ?P rest))"
    by blast
  then show ?case
  proof cases
    case hd
    have "take (length ?marks) rest = ?marks"
      by (rule takeWhile_eq_take[symmetric])
    with hd len show ?thesis by simp
  next
    case tl
    define n where "n = length ?marks"
    define r where "r = dropWhile ?P rest"
    have d: "r = drop n rest"
      unfolding r_def n_def by (rule dropWhile_eq_drop)
    have len': "n + length r = length rest"
      using len unfolding r_def n_def .
    from "2.IH"[OF refl refl tl]
    have ih: "start + 1 + n \<le> c_start c" "c_start c < c_end c"
         "c_end c \<le> start + 1 + n + length r"
         "c_text c = take (c_end c - c_start c) (drop (c_start c - (start + 1 + n)) r)"
      unfolding r_def n_def by blast+
    have e1: "c_start c - (start + 1 + n) + n = c_start c - start - 1"
      using ih(1) by arith
    have e2: "c_start c - start \<noteq> 0"
      using ih(1) by arith
    have "drop (c_start c - (start + 1 + n)) r = drop (c_start c - start - 1) rest"
      unfolding d drop_drop e1 ..
    also have "\<dots> = drop (c_start c - start) (x # rest)"
      using e2 by (simp add: drop_Cons')
    finally have "c_text c = take (c_end c - c_start c) (drop (c_start c - start) (x # rest))"
      using ih(4) by simp
    moreover have "start \<le> c_start c" using ih(1) by arith
    moreover have "c_end c \<le> start + length (x # rest)" using ih(3) len' by simp
    ultimately show ?thesis using ih(2) by blast
  qed
qed

lemma clusters_from_hd:
  "clusters_from db start s \<noteq> [] \<Longrightarrow> c_start (hd (clusters_from db start s)) = start"
  by (cases s) (simp_all add: clusters_from_Cons)

lemma clusters_from_contiguous:
  "Suc k < length (clusters_from db start s) \<Longrightarrow>
     c_end (clusters_from db start s ! k) = c_start (clusters_from db start s ! Suc k)"
proof (induction db start s arbitrary: k rule: clusters_from.induct)
  case (1 db start)
  then show ?case by simp
next
  case (2 db start x rest)
  let ?P = "\<lambda>y. combining db y \<noteq> 0"
  let ?i = "start + 1 + length (takeWhile ?P rest)"
  let ?tl = "clusters_from db ?i (dropWhile ?P rest)"
  from "2.prems" have lt: "k < length ?tl" by (simp add: clusters_from_Cons)
  show ?case
  proof (cases k)
    case 0
    from lt have "?tl \<noteq> []" by auto
    from clusters_from_hd[OF this] have "c_start (?tl ! 0) = ?i"
      using \<open>?tl \<noteq> []\<close> by (simp add: hd_conv_nth)
    with 0 show ?thesis by (simp add: clusters_from_Cons)
  next
    case (Suc k')
    with lt have "Suc k' < length ?tl" by simp
    from "2.IH"[OF refl refl this] Suc show ?thesis by (simp add: clusters_from_Cons)
  qed
qed

lemma clusters_from_sorted:
  "sorted_wrt (\<lambda>a b. c_end a \<le> c_start b) (clusters_from db start s)"
proof (induction db start s rule: clusters_from.induct)
  case (1 db start)
  then show ?case by simp
next
  case (2 db start x rest)
  then show ?case
    by (auto simp: clusters_from_Cons dest!: clusters_from_bounds)
qed

text \<open>The same facts for the cluster sequence of the detector.\<close>

lemma line_clusters_nth [simp]:
  "k < length (grapheme_clusters db txt) \<Longrightarrow>
     c_text (line_clusters db txt ! k) = c_text (grapheme_clusters db txt ! k)
   \<and> c_start (line_clusters db txt ! k) = c_start (grapheme_clusters db txt ! k)
   \<and> c_end (line_clusters db txt ! k) = c_end (grapheme_clusters db txt ! k)
   \<and> c_line (line_clusters db txt ! k)
       = line_number_at txt (c_start (grapheme_clusters db txt ! k))"
  by (simp add: line_clusters_def with_lines_def)

lemma line_clusters_bounds:
  assumes "k < length (line_clusters db txt)"
  shows "c_start (line_clusters db txt ! k) < c_end (line_clusters db txt ! k)"
    and "c_end (line_clusters db txt ! k) \<le> length txt"
    and "c_text (line_clusters db txt ! k)
           = slice txt (c_start (line_clusters db txt ! k)) (c_end (line_clusters db txt ! k))"
proof -
  from assms have k: "k < length (grapheme_clusters db txt)" by simp
  then have "grapheme_clusters db txt ! k \<in> set (clusters_from db 0 txt)"
    by (simp add: grapheme_clusters_def)
  from clusters_from_bounds[OF this] k
  show "c_start (line_clusters db txt ! k) < c_end (line_clusters db txt ! k)"
    and "c_end (line_clusters db txt ! k) \<le> length txt"
    and "c_text (line_clusters db txt ! k)
           = slice txt (c_start (line_clusters db txt ! k)) (c_end (line_clusters db txt ! k))"
    by (simp_all add: slice_def)
qed

lemma line_clusters_contiguous:
  "Suc k < length (line_clusters db txt) \<Longrightarrow>
     c_end (line_clusters db txt ! k) = c_start (line_clusters db txt ! Suc k)"
  using clusters_from_contiguous[of k db 0 "txt"]
  by (simp add: grapheme_clusters_def[symmetric])

lemma line_clusters_end_le_start:
  assumes "i < j" "j < length (line_clusters db txt)"
  shows "c_end (line_clusters db txt ! i) \<le> c_start (line_clusters db txt ! j)"
proof -
  from assms have "i < j" "j < length (clusters_from db 0 txt)"
    by (simp_all add: grapheme_clusters_def)
  from sorted_wrt_nth_less[OF clusters_from_sorted this]
  show ?thesis using assms by (simp add: grapheme_clusters_def)
qed

lemma line_clusters_start_mono:
  assumes "i < j" "j < length (line_clusters db txt)"
  shows "c_start (line_clusters db txt ! i) < c_start (line_clusters db txt ! j)"
  using line_clusters_end_le_start[OF assms] line_clusters_bounds(1)[of i db "txt"] assms
  by simp

subsection \<open>Order, bounds and uniqueness of the occurrences\<close>

lemma distinct_map_filter_le_1:
  "distinct (map f xs) \<Longrightarrow> length (filter (\<lambda>x. f x = a) xs) \<le> 1"
proof (induction xs)
  case Nil
  then show ?case by simp
next
  case (Cons x xs)
  show ?case
  proof (cases "f x = a")
    case True
    with Cons.prems have "\<forall>y \<in> set xs. f y \<noteq> a" by (auto simp: image_iff)
    then have "filter (\<lambda>x. f x = a) xs = []" by (simp add: filter_empty_conv)
    with True show ?thesis by simp
  next
    case False
    with Cons show ?thesis by simp
  qed
qed

lemma scan_from_first_classified:
  assumes "\<forall>j' \<in> set js1. \<not> is_vowel_cluster db (c_text (cl ! j'))
                       \<or> classify_kind db txt cl i j' = None"
    and "is_vowel_cluster db (c_text (cl ! j))"
    and "classify_kind db txt cl i j = Some k"
  shows "scan_from db txt cl iota i (js1 @ j # js2) =
           (if diphthong_decision db iota k (c_text (cl ! i)) (c_text (cl ! j)) then None
            else Some (make_occurrence txt cl k i j))"
  using assms by (induction js1) auto

lemma distinct_i_index_detect:
  "distinct (map i_index (snd (detect_hiatus_in_text db inp iota K)))"
  unfolding map_i_index_detect by simp

text \<open>
  Claim C6.  Each start cluster index \<open>i\<close> contributes at most one occurrence to the result of
  \<open>detect_hiatus_in_text\<close>.  The inner loop stops at the first candidate \<open>j\<close> that is a vowel
  cluster and gets a kind: whatever candidates \<open>js2\<close> follow, it returns nothing when the
  pair is a diphthong and the one occurrence \<open>(i, j)\<close> otherwise.
\<close>

theorem at_most_one_occurrence_per_start:
  "length (filter (\<lambda>occ. i_index occ = i) (snd (detect_hiatus_in_text db inp iota K))) \<le> 1
   \<and> ((\<forall>j' \<in> set js1. \<not> is_vowel_cluster db (c_text (cl ! j'))
                        \<or> classify_kind db t cl i j' = None)
        \<and> is_vowel_cluster db (c_text (cl ! j))
        \<and> classify_kind db t cl i j = Some k
      \<longrightarrow> scan_from db t cl iota i (js1 @ j # js2) =
            (if diphthong_decision db iota k (c_text (cl ! i)) (c_text (cl ! j)) then None
             else Some (make_occurrence t cl k i j)))"
  using distinct_map_filter_le_1[OF distinct_i_index_detect]
        scan_from_first_classified[of js1 db cl t i j k iota js2]
  by blast

text \<open>A run of the theorem on a concrete text.\<close>

theorem at_most_one_occurrence_per_start_witness:
  "length (filter (\<lambda>occ. i_index occ = 2)
             (snd (detect_hiatus_in_text greek_ucd kai_eidon False 8))) = 1
   \<and> scan_from greek_ucd kai_eidon (line_clusters greek_ucd kai_eidon) False 2
         ([3] @ 4 # [5, 6, 7, 8])
       = Some (make_occurrence kai_eidon (line_clusters greek_ucd kai_eidon) InterWord 2 4)"
proof -
  let ?cl = "line_clusters greek_ucd kai_eidon"
  have p: "(\<forall>j' \<in> set [3]. \<not> is_vowel_cluster greek_ucd (c_text (?cl ! j'))
                \<or> classify_kind greek_ucd kai_eidon ?cl 2 j' = None)
           \<and> is_vowel_cluster greek_ucd (c_text (?cl ! 4))
           \<and> classify_kind greek_ucd kai_eidon ?cl 2 4 = Some InterWord"
    by code_simp
  have d: "\<not> diphthong_decision greek_ucd False InterWord (c_text (?cl ! 2)) (c_text (?cl ! 4))"
    by (simp add: diphthong_decision_def)
  have n: "length (filter (\<lambda>occ. i_index occ = 2)
             (snd (detect_hiatus_in_text greek_ucd kai_eidon False 8))) \<ge> 1"
    by code_simp
  from at_most_one_occurrence_per_start[where i = 2 and db = greek_ucd and inp = kai_eidon
      and iota = False and K = 8 and ?js1.0 = "[3]" and cl = ?cl and t = kai_eidon and j = 4
      and k = InterWord and ?js2.0 = "[5, 6, 7, 8]"] p d n
  show ?thesis by simp
qed

text \<open>
  Claim C7.  Every reported occurrence has \<open>i_index < j_index\<close>, and both are indices into the
  cluster sequence that the segmenter produces for the normalised text.
\<close>

theorem occurrence_indices_valid:
  "\<forall>occ \<in> set (snd (detect_hiatus_in_text db inp iota K)).
     i_index occ < j_index occ
     \<and> j_index occ < length (grapheme_clusters db (normalize_NFC db inp))"
proof
  fix occ
  assume "occ \<in> set (snd (detect_hiatus_in_text db inp iota K))"
  from detect_occD[OF this] obtain raw i where
    occ: "occ = expand_occurrence db (line_clusters db (normalize_NFC db inp)) raw"
    and raw: "scan_start db (normalize_NFC db inp)
                (line_clusters db (normalize_NFC db inp)) iota K i = Some raw"
    by blast
  from scan_start_SomeD(2)[OF raw] occ
  show "i_index occ < j_index occ
     \<and> j_index occ < length (grapheme_clusters db (normalize_NFC db inp))"
    by auto
qed

text \<open>A run of the theorem on a concrete text.\<close>

theorem occurrence_indices_valid_witness:
  "snd (detect_hiatus_in_text greek_ucd pneuma_hagion False 8) \<noteq> []
   \<and> list_all (\<lambda>occ. i_index occ < j_index occ
          \<and> j_index occ
                < length (grapheme_clusters greek_ucd (normalize_NFC greek_ucd pneuma_hagion)))
        (snd (detect_hiatus_in_text greek_ucd pneuma_hagion False 8))"
proof -
  have "snd (detect_hiatus_in_text greek_ucd pneuma_hagion False 8) \<noteq> []"
    by code_simp
  with occurrence_indices_valid[of greek_ucd pneuma_hagion False 8]
  show ?thesis unfolding list_all_iff by blast
qed

text \<open>
  Claim C8.  For a lookahead bound \<open>K \<ge> 1\<close> every reported occurrence has
  \<open>j_index - i_index \<le> K\<close>: a vowel pair with more than \<open>K\<close> clusters in between is never
  reported.
\<close>

theorem lookahead_bound:
  assumes "1 \<le> K"
  shows "\<forall>occ \<in> set (snd (detect_hiatus_in_text db inp iota K)).
           int (j_index occ) - int (i_index occ) \<le> K"
proof
  fix occ
  assume "occ \<in> set (snd (detect_hiatus_in_text db inp iota K))"
  from detect_occD[OF this] obtain raw i where
    occ: "occ = expand_occurrence db (line_clusters db (normalize_NFC db inp)) raw"
    and raw: "scan_start db (normalize_NFC db inp)
                (line_clusters db (normalize_NFC db inp)) iota K i = Some raw"
    by blast
  from scan_start_SomeD(2)[OF raw] occ
  show "int (j_index occ) - int (i_index occ) \<le> K"
    by auto
qed

text \<open>A run of the theorem on a concrete text.\<close>

theorem lookahead_bound_witness:
  "(1::int) \<le> 8
   \<and> snd (detect_hiatus_in_text greek_ucd kai_eidon False 8) \<noteq> []
   \<and> list_all (\<lambda>occ. int (j_index occ) - int (i_index occ) \<le> 8)
        (snd (detect_hiatus_in_text greek_ucd kai_eidon False 8))"
proof -
  have k: "(1::int) \<le> 8" by simp
  have "snd (detect_hiatus_in_text greek_ucd kai_eidon False 8) \<noteq> []"
    by code_simp
  with lookahead_bound[OF k, of greek_ucd kai_eidon False] k
  show ?thesis unfolding list_all_iff by blast
qed

lemma start_pos_detect:
  assumes "occ \<in> set (snd (detect_hiatus_in_text db inp iota K))"
  shows "start_pos occ = c_start (line_clusters db (normalize_NFC db inp) ! i_index occ)"
    and "i_index occ < length (line_clusters db (normalize_NFC db inp))"
proof -
  from detect_occD[OF assms] obtain raw i where
    occ: "occ = expand_occurrence db (line_clusters db (normalize_NFC db inp)) raw"
    and i: "i < length (line_clusters db (normalize_NFC db inp))"
    and raw: "scan_start db (normalize_NFC db inp)
                (line_clusters db (normalize_NFC db inp)) iota K i = Some raw"
    by blast
  from scan_start_SomeD(2)[OF raw] occ i
  show "start_pos occ = c_start (line_clusters db (normalize_NFC db inp) ! i_index occ)"
    and "i_index occ < length (line_clusters db (normalize_NFC db inp))"
    by auto
qed

text \<open>
  Claim C10.  The returned occurrence list is in strictly increasing order of \<open>i_index\<close>, and hence of
  \<open>start_pos\<close>.
\<close>

theorem occurrences_in_document_order:
  "sorted_wrt (<) (map i_index (snd (detect_hiatus_in_text db inp iota K)))
   \<and> sorted_wrt (<) (map start_pos (snd (detect_hiatus_in_text db inp iota K)))"
proof
  let ?occs = "snd (detect_hiatus_in_text db inp iota K)"
  let ?cl = "line_clusters db (normalize_NFC db inp)"
  show s1: "sorted_wrt (<) (map i_index ?occs)"
    unfolding map_i_index_detect by (rule sorted_wrt_filter) simp
  then have "sorted_wrt (\<lambda>a b. i_index a < i_index b) ?occs"
    by (simp add: sorted_wrt_map)
  then have "sorted_wrt (\<lambda>a b. start_pos a < start_pos b) ?occs"
  proof (rule sorted_wrt_mono_rel[rotated])
    fix a b
    assume "a \<in> set ?occs" "b \<in> set ?occs" "i_index a < i_index b"
    then show "start_pos a < start_pos b"
      using start_pos_detect[of a db inp iota K] start_pos_detect[of b db inp iota K]
            line_clusters_start_mono[of "i_index a" "i_index b" db "normalize_NFC db inp"]
      by simp
  qed
  then show "sorted_wrt (<) (map start_pos ?occs)"
    by (simp add: sorted_wrt_map)
qed

text \<open>A run of the theorem on a concrete text.\<close>

theorem occurrences_in_document_order_witness:
  "length (snd (detect_hiatus_in_text greek_ucd pneuma_hagion False 8)) = 2
   \<and> sorted_wrt (<) (map i_index (snd (detect_hiatus_in_text greek_ucd pneuma_hagion False 8)))
   \<and> sorted_wrt (<) (map start_pos (snd (detect_hiatus_in_text greek_ucd pneuma_hagion False 8)))"
proof -
  have "length (snd (detect_hiatus_in_text greek_ucd pneuma_hagion False 8)) = 2"
    by code_simp
  with occurrences_in_document_order[of greek_ucd pneuma_hagion False 8]
  show ?thesis by blast
qed

text \<open>
  Claim C9.  Detection is invariant under prior NFC normalisation: when NFC is idempotent on the text
  \<open>t\<close>, running the detector on the NFC form of \<open>t\<close> returns the same annotated text and
  the same occurrence list as running it on \<open>t\<close>.
\<close>

theorem nfc_invariance:
  assumes "normalize_NFC db (normalize_NFC db t) = normalize_NFC db t"
  shows "detect_hiatus_in_text db (normalize_NFC db t) iota K
           = detect_hiatus_in_text db t iota K"
  using assms by (simp add: detect_hiatus_in_text_def)

text \<open>A run of the theorem on a concrete text.\<close>

theorem nfc_invariance_witness:
  "normalize_NFC greek_ucd aei_decomposed \<noteq> aei_decomposed
   \<and> normalize_NFC greek_ucd (normalize_NFC greek_ucd aei_decomposed)
       = normalize_NFC greek_ucd aei_decomposed
   \<and> detect_hiatus_in_text greek_ucd (normalize_NFC greek_ucd aei_decomposed) False 8
       = detect_hiatus_in_text greek_ucd aei_decomposed False 8"
proof -
  have a: "normalize_NFC greek_ucd aei_decomposed \<noteq> aei_decomposed"
    by code_simp
  have b: "normalize_NFC greek_ucd (normalize_NFC greek_ucd aei_decomposed)
       = normalize_NFC greek_ucd aei_decomposed"
    by code_simp
  from nfc_invariance[OF b, of False 8] a b show ?thesis by blast
qed

subsection \<open>Adjacent vowel pairs: breathing, diaeresis and diphthongs\<close>

lemma intervening_empty_iff:
  assumes "i < j" "j < length (line_clusters db t)"
  shows "slice t (c_end (line_clusters db t ! i)) (c_start (line_clusters db t ! j)) = []
           \<longleftrightarrow> j = Suc i"
proof
  let ?cl = "line_clusters db t"
  assume e: "slice t (c_end (?cl ! i)) (c_start (?cl ! j)) = []"
  show "j = Suc i"
  proof (rule ccontr)
    assume "j \<noteq> Suc i"
    with assms have lt: "Suc i < j" by simp
    from line_clusters_contiguous[of i db "t"] lt assms
    have 1: "c_end (?cl ! i) = c_start (?cl ! Suc i)" by simp
    from line_clusters_start_mono[OF lt assms(2)]
    have 2: "c_start (?cl ! Suc i) < c_start (?cl ! j)" .
    from line_clusters_bounds[OF assms(2)]
    have 3: "c_start (?cl ! j) < length t" by simp
    from 1 2 3 have "slice t (c_end (?cl ! i)) (c_start (?cl ! j)) \<noteq> []"
      by (simp add: slice_def)
    with e show False by simp
  qed
next
  assume "j = Suc i"
  with line_clusters_contiguous[of i db "t"] assms
  show "slice t (c_end (line_clusters db t ! i)) (c_start (line_clusters db t ! j)) = []"
    by (simp add: slice_def)
qed

lemma classify_kind_adjacent:
  assumes "Suc i < length (line_clusters db t)"
  shows "classify_kind db t (line_clusters db t) i (Suc i) = Some IntraWord"
proof -
  from assms intervening_empty_iff[of i "Suc i" db "t"]
  have "slice t (c_end (line_clusters db t ! i)) (c_start (line_clusters db t ! Suc i)) = []"
    by simp
  then show ?thesis by (simp add: classify_kind_def Let_def)
qed

lemma lookahead_range_Cons:
  assumes "Suc i < n" "1 \<le> K"
  shows "lookahead_range i K n = Suc i # [Suc (Suc i)..<nat (min (int i + 1 + K) (int n))]"
  using assms by (simp add: lookahead_range_def upt_conv_Cons)

lemma scan_start_adjacent:
  assumes "Suc i < length (line_clusters db t)" "1 \<le> K"
    and "is_vowel_cluster db (c_text (line_clusters db t ! i))"
    and "is_vowel_cluster db (c_text (line_clusters db t ! Suc i))"
  shows "scan_start db t (line_clusters db t) iota K i =
           (if diphthong_decision db iota IntraWord (c_text (line_clusters db t ! i))
                 (c_text (line_clusters db t ! Suc i))
            then None
            else Some (make_occurrence t (line_clusters db t) IntraWord i (Suc i)))"
  using assms classify_kind_adjacent[OF assms(1)]
  by (simp add: scan_start_def lookahead_range_Cons)

lemma detect_occI:
  assumes "scan_start db (normalize_NFC db inp) (line_clusters db (normalize_NFC db inp))
             iota K i = Some raw"
    and "i < length (line_clusters db (normalize_NFC db inp))"
  shows "expand_occurrence db (line_clusters db (normalize_NFC db inp)) raw
           \<in> set (snd (detect_hiatus_in_text db inp iota K))"
  using assms unfolding snd_detect set_map set_scan_occurrences by blast

lemma detect_occ_start:
  assumes "occ \<in> set (snd (detect_hiatus_in_text db inp iota K))"
  shows "\<exists>raw. scan_start db (normalize_NFC db inp) (line_clusters db (normalize_NFC db inp))
             iota K (i_index occ) = Some raw
           \<and> occ = expand_occurrence db (line_clusters db (normalize_NFC db inp)) raw"
proof -
  from detect_occD[OF assms] obtain raw i where
    occ: "occ = expand_occurrence db (line_clusters db (normalize_NFC db inp)) raw"
    and raw: "scan_start db (normalize_NFC db inp)
                (line_clusters db (normalize_NFC db inp)) iota K i = Some raw"
    by blast
  from scan_start_i_index[OF raw] occ have "i_index occ = i" by simp
  with occ raw show ?thesis by blast
qed

lemma breathing_not_diphthong:
  "contains_breathing db ti \<Longrightarrow> \<not> diphthong_decision db iota k ti tj"
  by (simp add: diphthong_decision_def Let_def)

text \<open>
  Claim C1, as stated: an intra-word vowel pair whose first cluster carries a breathing mark
  never yields a recorded occurrence.  It fails on the capitalised word \<open>haides\<close>: cluster 0
  (capital alpha with rough breathing) and cluster 1 (iota) are adjacent vowel clusters, the
  first carries a breathing, and the occurrence \<open>(0, 1)\<close> is recorded.
\<close>

theorem breathing_pair_counterexample:
  "is_vowel_cluster greek_ucd
     (c_text (line_clusters greek_ucd (normalize_NFC greek_ucd haides) ! 0))
   \<and> is_vowel_cluster greek_ucd
     (c_text (line_clusters greek_ucd (normalize_NFC greek_ucd haides) ! 1))
   \<and> slice (normalize_NFC greek_ucd haides)
       (c_end (line_clusters greek_ucd (normalize_NFC greek_ucd haides) ! 0))
       (c_start (line_clusters greek_ucd (normalize_NFC greek_ucd haides) ! 1)) = []
   \<and> contains_breathing greek_ucd
     (c_text (line_clusters greek_ucd (normalize_NFC greek_ucd haides) ! 0))
   \<and> map (\<lambda>occ. (kind occ, i_index occ, j_index occ))
       (snd (detect_hiatus_in_text greek_ucd haides False 8)) = [(IntraWord, 0, 1)]"
  by code_simp

text \<open>
  Claim C1, amended: lines 175 and 176 of the source reset \<open>is_diph\<close> when cluster \<open>i\<close> carries
  a breathing mark, so for a lookahead bound of at least 1 an intra-word vowel pair whose
  first cluster carries a smooth or rough breathing is always recorded, as the intra-word
  occurrence \<open>(i, j)\<close>, whatever its base letters are.
\<close>

theorem breathing_pair_recorded:
  assumes "i < j" "j < length (line_clusters db (normalize_NFC db inp))"
    and "is_vowel_cluster db (c_text (line_clusters db (normalize_NFC db inp) ! i))"
    and "is_vowel_cluster db (c_text (line_clusters db (normalize_NFC db inp) ! j))"
    and "slice (normalize_NFC db inp) (c_end (line_clusters db (normalize_NFC db inp) ! i))
           (c_start (line_clusters db (normalize_NFC db inp) ! j)) = []"
    and "contains_breathing db (c_text (line_clusters db (normalize_NFC db inp) ! i))"
    and "1 \<le> K"
  shows "\<exists>occ \<in> set (snd (detect_hiatus_in_text db inp iota K)).
           i_index occ = i \<and> j_index occ = j \<and> kind occ = IntraWord"
proof -
  let ?t = "normalize_NFC db inp"
  let ?cl = "line_clusters db ?t"
  from assms(1,2,5) intervening_empty_iff[of i j db ?t] have j: "j = Suc i" by simp
  from assms(6) have "\<not> diphthong_decision db iota IntraWord (c_text (?cl ! i)) (c_text (?cl ! Suc i))"
    by (rule breathing_not_diphthong)
  with scan_start_adjacent[of i db ?t K iota] assms j
  have "scan_start db ?t ?cl iota K i = Some (make_occurrence ?t ?cl IntraWord i (Suc i))"
    by simp
  from detect_occI[OF this] assms(1,2) j show ?thesis
    by (intro bexI[where x = "expand_occurrence db ?cl (make_occurrence ?t ?cl IntraWord i (Suc i))"])
       simp_all
qed

text \<open>The theorem on the word \<open>aei\<close>, whose first cluster is alpha with smooth breathing.\<close>

theorem breathing_pair_recorded_witness:
  "(0::nat) < 1
   \<and> 1 < length (line_clusters greek_ucd (normalize_NFC greek_ucd aei))
   \<and> contains_breathing greek_ucd
       (c_text (line_clusters greek_ucd (normalize_NFC greek_ucd aei) ! 0))
   \<and> (1::int) \<le> 8
   \<and> (\<exists>occ \<in> set (snd (detect_hiatus_in_text greek_ucd aei False 8)).
         i_index occ = 0 \<and> j_index occ = 1 \<and> kind occ = IntraWord)"
proof -
  let ?cl = "line_clusters greek_ucd (normalize_NFC greek_ucd aei)"
  have h: "(0::nat) < 1" "1 < length ?cl"
    "is_vowel_cluster greek_ucd (c_text (?cl ! 0))"
    "is_vowel_cluster greek_ucd (c_text (?cl ! 1))"
    "slice (normalize_NFC greek_ucd aei) (c_end (?cl ! 0)) (c_start (?cl ! 1)) = []"
    "contains_breathing greek_ucd (c_text (?cl ! 0))"
    "(1::int) \<le> 8"
    by code_simp+
  from breathing_pair_recorded[OF h, of False] h show ?thesis by blast
qed

text \<open>
  Claim C5, as stated: an intra-word pair whose base letters form a diphthong is recorded
  only when the second cluster carries a diaeresis.  It fails on \<open>oide\<close>: the base letters of
  clusters 0 and 1 are omega and iota, cluster 1 carries no diaeresis, and the occurrence
  \<open>(0, 1)\<close> is recorded, because cluster 0 carries a breathing.
\<close>

theorem diphthong_pair_counterexample:
  "is_vowel_cluster greek_ucd
     (c_text (line_clusters greek_ucd (normalize_NFC greek_ucd oide) ! 0))
   \<and> is_vowel_cluster greek_ucd
     (c_text (line_clusters greek_ucd (normalize_NFC greek_ucd oide) ! 1))
   \<and> slice (normalize_NFC greek_ucd oide)
       (c_end (line_clusters greek_ucd (normalize_NFC greek_ucd oide) ! 0))
       (c_start (line_clusters greek_ucd (normalize_NFC greek_ucd oide) ! 1)) = []
   \<and> base_letter greek_ucd (c_text (line_clusters greek_ucd (normalize_NFC greek_ucd oide) ! 0))
       @ base_letter greek_ucd
           (c_text (line_clusters greek_ucd (normalize_NFC greek_ucd oide) ! 1))
       = [0x3C9, 0x3B9]
   \<and> \<not> contains_combining_diaeresis greek_ucd
         (c_text (line_clusters greek_ucd (normalize_NFC greek_ucd oide) ! 1))
   \<and> map (\<lambda>occ. (kind occ, i_index occ, j_index occ))
       (snd (detect_hiatus_in_text greek_ucd oide False 8)) = [(IntraWord, 0, 1)]"
  by code_simp

text \<open>
  Claim C5, amended: for an intra-word pair of vowel clusters whose base letters form an
  entry of \<open>DIPHTHONGS\<close> and a lookahead bound of at least 1, start cluster \<open>i\<close> yields an
  occurrence if and only if cluster \<open>j\<close> carries a diaeresis or cluster \<open>i\<close> carries a
  breathing mark; that occurrence is then the intra-word occurrence \<open>(i, j)\<close>.
\<close>

theorem diphthong_pair_recorded_iff:
  assumes "i < j" "j < length (line_clusters db (normalize_NFC db inp))"
    and "is_vowel_cluster db (c_text (line_clusters db (normalize_NFC db inp) ! i))"
    and "is_vowel_cluster db (c_text (line_clusters db (normalize_NFC db inp) ! j))"
    and "slice (normalize_NFC db inp) (c_end (line_clusters db (normalize_NFC db inp) ! i))
           (c_start (line_clusters db (normalize_NFC db inp) ! j)) = []"
    and "base_letter db (c_text (line_clusters db (normalize_NFC db inp) ! i))
           @ base_letter db (c_text (line_clusters db (normalize_NFC db inp) ! j)) \<in> DIPHTHONGS"
    and "1 \<le> K"
  shows "((\<exists>occ \<in> set (snd (detect_hiatus_in_text db inp iota K)). i_index occ = i)
            \<longleftrightarrow> contains_combining_diaeresis db
                   (c_text (line_clusters db (normalize_NFC db inp) ! j))
                \<or> contains_breathing db
                   (c_text (line_clusters db (normalize_NFC db inp) ! i)))
         \<and> (\<forall>occ \<in> set (snd (detect_hiatus_in_text db inp iota K)).
               i_index occ = i \<longrightarrow> j_index occ = j \<and> kind occ = IntraWord)"
proof -
  let ?t = "normalize_NFC db inp"
  let ?cl = "line_clusters db ?t"
  let ?occs = "snd (detect_hiatus_in_text db inp iota K)"
  let ?override = "contains_combining_diaeresis db (c_text (?cl ! j))
                     \<or> contains_breathing db (c_text (?cl ! i))"
  from assms(1,2,5) intervening_empty_iff[of i j db ?t] have j: "j = Suc i" by simp
  from assms(6) have dd: "diphthong_decision db iota IntraWord (c_text (?cl ! i)) (c_text (?cl ! j))
          \<longleftrightarrow> \<not> ?override"
    by (simp add: diphthong_decision_def Let_def)
  from scan_start_adjacent[of i db ?t K iota] assms j dd
  have ss: "scan_start db ?t ?cl iota K i =
              (if ?override then Some (make_occurrence ?t ?cl IntraWord i j) else None)"
    by simp
  have a: "(\<exists>occ \<in> set ?occs. i_index occ = i) \<longleftrightarrow> ?override"
  proof
    assume "\<exists>occ \<in> set ?occs. i_index occ = i"
    then obtain occ where "occ \<in> set ?occs" "i_index occ = i" by blast
    from detect_occ_start[OF this(1)] this(2) ss show ?override
      by (auto split: if_splits)
  next
    assume ?override
    with ss have "scan_start db ?t ?cl iota K i = Some (make_occurrence ?t ?cl IntraWord i j)"
      by simp
    from detect_occI[OF this] assms(1,2) show "\<exists>occ \<in> set ?occs. i_index occ = i"
      by (intro bexI[where x = "expand_occurrence db ?cl (make_occurrence ?t ?cl IntraWord i j)"])
         simp_all
  qed
  have b: "\<forall>occ \<in> set ?occs. i_index occ = i \<longrightarrow> j_index occ = j \<and> kind occ = IntraWord"
  proof (intro ballI impI)
    fix occ assume "occ \<in> set ?occs" "i_index occ = i"
    from detect_occ_start[OF this(1)] this(2) ss
    show "j_index occ = j \<and> kind occ = IntraWord"
      by (auto split: if_splits)
  qed
  from a b show ?thesis by blast
qed

text \<open>
  The theorem on \<open>kai_eidon\<close> (alpha and iota, no diaeresis, no breathing: nothing recorded
  from cluster 1) and on \<open>praus\<close> (alpha and upsilon with diaeresis: recorded).
\<close>

theorem diphthong_pair_recorded_iff_witness:
  "base_letter greek_ucd (c_text (line_clusters greek_ucd (normalize_NFC greek_ucd kai_eidon) ! 1))
     @ base_letter greek_ucd
         (c_text (line_clusters greek_ucd (normalize_NFC greek_ucd kai_eidon) ! 2))
     \<in> DIPHTHONGS
   \<and> \<not> (\<exists>occ \<in> set (snd (detect_hiatus_in_text greek_ucd kai_eidon False 8)). i_index occ = 1)
   \<and> base_letter greek_ucd (c_text (line_clusters greek_ucd (normalize_NFC greek_ucd praus) ! 2))
       @ base_letter greek_ucd
           (c_text (line_clusters greek_ucd (normalize_NFC greek_ucd praus) ! 3))
       \<in> DIPHTHONGS
   \<and> contains_combining_diaeresis greek_ucd
       (c_text (line_clusters greek_ucd (normalize_NFC greek_ucd praus) ! 3))
   \<and> (\<exists>occ \<in> set (snd (detect_hiatus_in_text greek_ucd praus False 8)).
         i_index occ = 2 \<and> j_index occ = 3 \<and> kind occ = IntraWord)"
proof -
  let ?ck = "line_clusters greek_ucd (normalize_NFC greek_ucd kai_eidon)"
  let ?cp = "line_clusters greek_ucd (normalize_NFC greek_ucd praus)"
  have k: "(1::nat) < 2" "2 < length ?ck"
    "is_vowel_cluster greek_ucd (c_text (?ck ! 1))"
    "is_vowel_cluster greek_ucd (c_text (?ck ! 2))"
    "slice (normalize_NFC greek_ucd kai_eidon) (c_end (?ck ! 1)) (c_start (?ck ! 2)) = []"
    "base_letter greek_ucd (c_text (?ck ! 1)) @ base_letter greek_ucd (c_text (?ck ! 2))
       \<in> DIPHTHONGS"
    "(1::int) \<le> 8"
    by code_simp+
  have kn: "\<not> (contains_combining_diaeresis greek_ucd (c_text (?ck ! 2))
               \<or> contains_breathing greek_ucd (c_text (?ck ! 1)))"
    by code_simp
  have p: "(2::nat) < 3" "3 < length ?cp"
    "is_vowel_cluster greek_ucd (c_text (?cp ! 2))"
    "is_vowel_cluster greek_ucd (c_text (?cp ! 3))"
    "slice (normalize_NFC greek_ucd praus) (c_end (?cp ! 2)) (c_start (?cp ! 3)) = []"
    "base_letter greek_ucd (c_text (?cp ! 2)) @ base_letter greek_ucd (c_text (?cp ! 3))
       \<in> DIPHTHONGS"
    "(1::int) \<le> 8"
    by code_simp+
  have pd: "contains_combining_diaeresis greek_ucd (c_text (?cp ! 3))"
    by code_simp
  from diphthong_pair_recorded_iff[OF k, of False] kn
  have 1: "\<not> (\<exists>occ \<in> set (snd (detect_hiatus_in_text greek_ucd kai_eidon False 8)).
               i_index occ = 1)"
    by blast
  from diphthong_pair_recorded_iff[OF p, of False] pd
  have 2: "\<exists>occ \<in> set (snd (detect_hiatus_in_text greek_ucd praus False 8)).
             i_index occ = 2 \<and> j_index occ = 3 \<and> kind occ = IntraWord"
    by blast
  from 1 2 k(6) p(6) pd show ?thesis by blast
qed

subsection \<open>The example line of the specification\<close>

text \<open>
  Claim C2, as stated: detection on the line \<open>theou\<close> with the default configuration returns
  no occurrence.  The list is not empty.
\<close>

theorem theou_not_empty:
  "snd (detect_hiatus_in_text greek_ucd theou False 8) \<noteq> []"
  by code_simp

text \<open>
  Claim C2, amended: detection on the line \<open>theou\<close> with the default configuration returns
  exactly one occurrence, the intra-word hiatus between epsilon (cluster 1) and omicron
  (cluster 2), whose right span is widened to omicron and upsilon (clusters 2 and 3); the
  diphthong of omicron and upsilon itself yields no occurrence.
\<close>

theorem theou_occurrences:
  "snd (detect_hiatus_in_text greek_ucd theou False 8) =
     [\<lparr>kind = IntraWord, start_pos = 1, end_pos = 3, snippet = [0x3B5, 0x3BF],
       cluster_i_text = [0x3B5], cluster_j_text = [0x3BF], line_i = 1, line_j = 1,
       i_index = 1, j_index = 2, intervening = [],
       vowel_i_indices = [1], vowel_j_indices = [2, 3],
       vowel_i_text = [0x3B5], vowel_j_text = [0x3BF, 0x1FE6]\<rparr>]"
  by code_simp

text \<open>The count and the indices read off the theorem.\<close>

theorem theou_occurrences_witness:
  "length (snd (detect_hiatus_in_text greek_ucd theou False 8)) = 1
   \<and> map i_index (snd (detect_hiatus_in_text greek_ucd theou False 8)) = [1]
   \<and> map j_index (snd (detect_hiatus_in_text greek_ucd theou False 8)) = [2]"
  using theou_occurrences by simp

subsection \<open>The span expander\<close>

lemma first_last_fold:
  "fold (first_last_step db cl) idxs (f, l) =
     (let np = filter (\<lambda>idx. \<not> is_punct_or_space_cluster db (c_text (cl ! idx))) idxs
      in (if f \<noteq> None then f else if np = [] then None else Some (hd np),
          if np = [] then l else Some (last np)))"
  by (induction idxs arbitrary: f l) (auto simp: first_last_step_def Let_def)

lemma first_nonpunct_eq:
  "first_nonpunct db cl ln =
     (let np = filter (\<lambda>k. c_line (cl ! k) = ln \<and> \<not> is_punct_or_space_cluster db (c_text (cl ! k)))
                 [0..<length cl]
      in if np = [] then None else Some (hd np))"
  by (simp add: first_nonpunct_def first_last_def first_last_fold line_to_idxs_def Let_def conj_commute)

lemma last_nonpunct_eq:
  "last_nonpunct db cl ln =
     (let np = filter (\<lambda>k. c_line (cl ! k) = ln \<and> \<not> is_punct_or_space_cluster db (c_text (cl ! k)))
                 [0..<length cl]
      in if np = [] then None else Some (last np))"
  by (simp add: last_nonpunct_def first_last_def first_last_fold line_to_idxs_def Let_def conj_commute)

lemma hd_filter_upt_least:
  assumes "filter P [0..<n] \<noteq> []" "m < n" "P m"
  shows "hd (filter P [0..<n]) \<le> m"
proof -
  have s: "sorted (filter P [0..<n])" by (simp add: sorted_wrt_filter)
  from assms have "m \<in> set (filter P [0..<n])" by simp
  with s assms(1) show ?thesis by (cases "filter P [0..<n]") auto
qed

lemma last_filter_upt_greatest:
  assumes "m < n" "P m"
  shows "m \<le> last (filter P [0..<n])"
proof -
  have s: "sorted (filter P [0..<n])" by (simp add: sorted_wrt_filter)
  from assms have "m \<in> set (filter P [0..<n])" by simp
  with s show ?thesis
    by (metis in_set_conv_nth last_conv_nth length_pos_if_in_set less_Suc_eq_le
          list.size(3) not_less_zero sorted_nth_mono Suc_pred' le_refl less_imp_le_nat)
qed

lemma line_number_at_mono:
  "a \<le> b \<Longrightarrow> line_number_at t a \<le> line_number_at t b"
proof -
  assume "a \<le> b"
  then have "take b t = take a t @ take (b - a) (drop a t)"
    by (metis le_add_diff_inverse take_add)
  then show ?thesis by (simp add: line_number_at_def)
qed

lemma c_line_mono:
  assumes "i \<le> j" "j < length (line_clusters db t)"
  shows "c_line (line_clusters db t ! i) \<le> c_line (line_clusters db t ! j)"
proof (cases "i = j")
  case True
  then show ?thesis by simp
next
  case False
  with assms have "i < j" by simp
  from line_clusters_start_mono[OF this assms(2)] assms
  show ?thesis by (simp add: line_number_at_mono)
qed

lemma between_in_intervening:
  assumes "i < m" "m < j" "j < length (line_clusters db t)"
  shows "set (c_text (line_clusters db t ! m))
           \<subseteq> set (slice t (c_end (line_clusters db t ! i)) (c_start (line_clusters db t ! j)))"
proof -
  let ?cl = "line_clusters db t"
  from assms have m: "m < length ?cl" by simp
  have a: "c_end (?cl ! i) \<le> c_start (?cl ! m)"
    using line_clusters_end_le_start[OF assms(1) m] .
  have b: "c_end (?cl ! m) \<le> c_start (?cl ! j)"
    using line_clusters_end_le_start[OF assms(2,3)] .
  have c: "c_start (?cl ! m) < c_end (?cl ! m)"
    using line_clusters_bounds(1)[OF m] .
  have "c_text (?cl ! m) = slice t (c_start (?cl ! m)) (c_end (?cl ! m))"
    using line_clusters_bounds(3)[OF m] .
  also have "set \<dots> \<subseteq> set (slice t (c_end (?cl ! i)) (c_start (?cl ! j)))"
  proof
    fix x assume "x \<in> set (slice t (c_start (?cl ! m)) (c_end (?cl ! m)))"
    then obtain p where p: "p < length (slice t (c_start (?cl ! m)) (c_end (?cl ! m)))"
        "x = slice t (c_start (?cl ! m)) (c_end (?cl ! m)) ! p"
      by (auto simp: in_set_conv_nth)
    then have p1: "p < c_end (?cl ! m) - c_start (?cl ! m)" "c_start (?cl ! m) + p < length t"
      by (auto simp: slice_def)
    with p have x: "x = t ! (c_start (?cl ! m) + p)"
      by (simp add: slice_def)
    let ?q = "c_start (?cl ! m) + p - c_end (?cl ! i)"
    from a b p1 have q: "?q < c_start (?cl ! j) - c_end (?cl ! i)" "c_end (?cl ! i) + ?q < length t"
      "c_end (?cl ! i) + ?q = c_start (?cl ! m) + p"
      by auto
    then have "slice t (c_end (?cl ! i)) (c_start (?cl ! j)) ! ?q = x"
      "?q < length (slice t (c_end (?cl ! i)) (c_start (?cl ! j)))"
      using x by (auto simp: slice_def)
    then show "x \<in> set (slice t (c_end (?cl ! i)) (c_start (?cl ! j)))"
      by (metis nth_mem)
  qed
  finally show ?thesis .
qed

lemma startswith_L_N:
  "startswith s ''L'' \<or> startswith s ''N'' \<Longrightarrow>
     \<not> startswith s ''P'' \<and> \<not> startswith s ''S''"
  by (cases s) auto

lemma unicode_factsD:
  assumes "unicode_facts db t" "m < length (line_clusters db t)"
  shows "base_letter db (c_text (line_clusters db t ! m)) \<notin> DIPHTHONGS"
    and "is_vowel_cluster db (c_text (line_clusters db t ! m)) \<Longrightarrow>
           \<exists>ch \<in> set (c_text (line_clusters db t ! m)).
             (startswith (category db ch) ''L'' \<or> startswith (category db ch) ''N'')
             \<and> \<not> isspace db ch"
proof -
  from assms(2) have m: "m < length (grapheme_clusters db t)" by simp
  then have "grapheme_clusters db t ! m \<in> set (grapheme_clusters db t)" by simp
  with assms(1) have
    "base_letter db (c_text (grapheme_clusters db t ! m)) \<notin> DIPHTHONGS
     \<and> (is_vowel_cluster db (c_text (grapheme_clusters db t ! m)) \<longrightarrow>
          (\<exists>ch \<in> set (c_text (grapheme_clusters db t ! m)).
             (startswith (category db ch) ''L'' \<or> startswith (category db ch) ''N'')
             \<and> \<not> isspace db ch))"
    unfolding unicode_facts_def by blast
  with m show "base_letter db (c_text (line_clusters db t ! m)) \<notin> DIPHTHONGS"
    and "is_vowel_cluster db (c_text (line_clusters db t ! m)) \<Longrightarrow>
           \<exists>ch \<in> set (c_text (line_clusters db t ! m)).
             (startswith (category db ch) ''L'' \<or> startswith (category db ch) ''N'')
             \<and> \<not> isspace db ch"
    by simp_all
qed

lemma no_vowel_between:
  assumes uf: "unicode_facts db t"
    and im: "i < m" and mj: "m < j" and jn: "j < length (line_clusters db t)"
    and ck: "classify_kind db t (line_clusters db t) i j = Some k"
  shows "\<not> is_vowel_cluster db (c_text (line_clusters db t ! m))"
proof
  let ?cl = "line_clusters db t"
  let ?interv = "slice t (c_end (?cl ! i)) (c_start (?cl ! j))"
  let ?P = "\<lambda>ln k. c_line (?cl ! k) = ln \<and> \<not> is_punct_or_space_cluster db (c_text (?cl ! k))"
  assume v: "is_vowel_cluster db (c_text (?cl ! m))"
  from mj jn have mn: "m < length ?cl" by simp
  from unicode_factsD(2)[OF uf mn v] obtain ch where
    ch: "ch \<in> set (c_text (?cl ! m))"
        "startswith (category db ch) ''L'' \<or> startswith (category db ch) ''N''"
        "\<not> isspace db ch"
    by blast
  from ch startswith_L_N have np: "\<not> is_punct_or_space_cluster db (c_text (?cl ! m))"
    unfolding is_punct_or_space_cluster_def by blast
  from ch(1) between_in_intervening[OF im mj jn] have chi: "ch \<in> set ?interv" by blast
  show False
  proof (cases "NEWLINE \<in> set ?interv")
    case True
    with ck have l: "c_line (?cl ! j) = c_line (?cl ! i) + 1"
      and la: "last_nonpunct db ?cl (c_line (?cl ! i)) = Some i"
      and fi: "first_nonpunct db ?cl (c_line (?cl ! j)) = Some j"
      by (auto simp: classify_kind_def Let_def split: if_splits)
    from c_line_mono[of i m db "t"] c_line_mono[of m j db "t"] im mj jn l
    consider "c_line (?cl ! m) = c_line (?cl ! i)" | "c_line (?cl ! m) = c_line (?cl ! j)"
      by fastforce
    then show False
    proof cases
      case 1
      with np have pm: "?P (c_line (?cl ! i)) m" by simp
      from last_filter_upt_greatest[of m "length ?cl" "?P (c_line (?cl ! i))", OF mn pm]
      have "m \<le> last (filter (?P (c_line (?cl ! i))) [0..<length ?cl])" .
      moreover from la have "last (filter (?P (c_line (?cl ! i))) [0..<length ?cl]) = i"
        by (simp add: last_nonpunct_eq Let_def split: if_splits)
      ultimately show False using im by simp
    next
      case 2
      with np have pm: "?P (c_line (?cl ! j)) m" by simp
      from fi have ne: "filter (?P (c_line (?cl ! j))) [0..<length ?cl] \<noteq> []"
        and hd: "hd (filter (?P (c_line (?cl ! j))) [0..<length ?cl]) = j"
        by (simp_all add: first_nonpunct_eq Let_def split: if_splits)
      from hd_filter_upt_least[of "?P (c_line (?cl ! j))" "length ?cl" m, OF ne mn pm] hd mj
      show False by simp
    qed
  next
    case False
    with ck chi have "only_punct_space_between db t (c_end (?cl ! i)) (c_start (?cl ! j))"
      by (auto simp: classify_kind_def Let_def split: if_splits)
    with chi ch(2) show False
      unfolding only_punct_space_between_def by blast
  qed
qed

lemma str_in_single:
  "str_in [y] s \<longleftrightarrow> y \<in> set s"
  by (induction s) auto

lemma base_letter_vowel:
  assumes "base_letter db x = [y]" "y \<in> set BASE_VOWELS"
  shows "is_vowel_cluster db x"
proof (cases "nfd_bases db x")
  case Nil
  with assms show ?thesis by (simp add: base_letter_def)
next
  case (Cons ch rest)
  with assms have "lower db ch = [y]" by (simp add: base_letter_def)
  with assms(2) Cons show ?thesis
    unfolding is_vowel_cluster_def by (auto simp: str_in_single)
qed

lemma diphthong_split:
  assumes "a @ b \<in> DIPHTHONGS" "a \<notin> DIPHTHONGS" "b \<notin> DIPHTHONGS"
  shows "\<exists>x y. a = [x] \<and> b = [y] \<and> x \<in> set BASE_VOWELS \<and> y \<in> set BASE_VOWELS"
proof -
  from assms(1) obtain p q where pq: "a @ b = [p, q] \<or> a @ b = [p]"
    unfolding DIPHTHONGS_def by auto
  from assms have "a \<noteq> []" "b \<noteq> []" by auto
  with pq obtain x y where xy: "a = [x]" "b = [y]"
    by (cases a; cases b) (auto simp: Cons_eq_append_conv append_eq_Cons_conv)
  with assms(1) have "x \<in> set BASE_VOWELS \<and> y \<in> set BASE_VOWELS"
    unfolding DIPHTHONGS_def BASE_VOWELS_def by auto
  with xy show ?thesis by blast
qed

lemma no_diphthong_with_skipped:
  assumes uf: "unicode_facts db t"
    and im: "i < m" and mj: "m < j" and jn: "j < length (line_clusters db t)"
    and ck: "classify_kind db t (line_clusters db t) i j = Some k"
  shows "safe_base db (line_clusters db t) m @ safe_base db (line_clusters db t) (Suc m)
           \<notin> DIPHTHONGS"
    and "safe_base db (line_clusters db t) (m - 1) @ safe_base db (line_clusters db t) m
           \<notin> DIPHTHONGS"
proof -
  let ?cl = "line_clusters db t"
  from mj jn have mn: "m < length ?cl" and sn: "Suc m < length ?cl" by simp_all
  from im mn have pn: "m - 1 < length ?cl" by simp
  have nv: "\<not> is_vowel_cluster db (c_text (?cl ! m))"
    using no_vowel_between[OF uf im mj jn ck] .
  have d: "base_letter db (c_text (?cl ! m)) \<notin> DIPHTHONGS"
    "base_letter db (c_text (?cl ! Suc m)) \<notin> DIPHTHONGS"
    "base_letter db (c_text (?cl ! (m - 1))) \<notin> DIPHTHONGS"
    using unicode_factsD(1)[OF uf mn] unicode_factsD(1)[OF uf sn] unicode_factsD(1)[OF uf pn]
    by blast+
  show "safe_base db ?cl m @ safe_base db ?cl (Suc m) \<notin> DIPHTHONGS"
  proof
    assume "safe_base db ?cl m @ safe_base db ?cl (Suc m) \<in> DIPHTHONGS"
    with mn sn have "base_letter db (c_text (?cl ! m)) @ base_letter db (c_text (?cl ! Suc m))
        \<in> DIPHTHONGS"
      by (simp add: safe_base_def)
    from diphthong_split[OF this d(1) d(2)] base_letter_vowel nv show False by blast
  qed
  show "safe_base db ?cl (m - 1) @ safe_base db ?cl m \<notin> DIPHTHONGS"
  proof
    assume "safe_base db ?cl (m - 1) @ safe_base db ?cl m \<in> DIPHTHONGS"
    with mn pn have "base_letter db (c_text (?cl ! (m - 1))) @ base_letter db (c_text (?cl ! m))
        \<in> DIPHTHONGS"
      by (simp add: safe_base_def)
    from diphthong_split[OF this d(3) d(1)] base_letter_vowel nv show False by blast
  qed
qed

lemma grown_unicode:
  assumes uf: "unicode_facts db t"
    and ij: "i < j" and jn: "j < length (line_clusters db t)"
    and ck: "classify_kind db t (line_clusters db t) i j = Some k"
  shows "set (grown_i db (line_clusters db t) i j) \<subseteq> {i - 1, i}"
    and "set (grown_j db (line_clusters db t) i j) \<subseteq> {j, j + 1}"
    and "length (grown_j db (line_clusters db t) i j) \<le> 2"
proof -
  let ?cl = "line_clusters db t"
  have a: "i + 1 < j \<Longrightarrow> safe_base db ?cl i @ safe_base db ?cl (i + 1) \<notin> DIPHTHONGS"
    using no_diphthong_with_skipped(2)[OF uf _ _ jn ck, of "i + 1"] by simp
  have b: "int j - 1 > int i \<Longrightarrow> safe_base db ?cl (j - 1) @ safe_base db ?cl j \<notin> DIPHTHONGS"
    using no_diphthong_with_skipped(1)[OF uf _ _ jn ck, of "j - 1"] by simp
  from a have a': "\<not> (i + 1 < j
      \<and> safe_base db ?cl i @ safe_base db ?cl (i + 1) \<in> DIPHTHONGS)"
    by blast
  from b have b': "\<not> (int j - 1 > int i
      \<and> safe_base db ?cl (j - 1) @ safe_base db ?cl j \<in> DIPHTHONGS)"
    by blast
  show "set (grown_i db ?cl i j) \<subseteq> {i - 1, i}"
    unfolding grown_i_def Let_def by (simp only: a' if_False) simp
  show "set (grown_j db ?cl i j) \<subseteq> {j, j + 1}"
    unfolding grown_j_def Let_def by (simp only: b' if_False) simp
  show "length (grown_j db ?cl i j) \<le> 2"
    unfolding grown_j_def Let_def by (simp only: b' if_False) simp
qed

lemma length_grown_i: "length (grown_i db cl i j) \<le> 2"
  by (simp add: grown_i_def Let_def)

lemma length_expand_spans:
  "length (fst (expand_spans db cl i j)) \<le> 2"
  "length (snd (expand_spans db cl i j)) \<le> length (grown_j db cl i j)"
  using length_grown_i[of db cl i j] by (simp_all add: expand_spans_def Let_def)

lemma expand_spans_adjacent:
  assumes "i < j"
  shows "i \<in> set (fst (expand_spans db cl i j))"
    and "j \<in> set (snd (expand_spans db cl i j))"
    and "\<forall>k \<in> set (fst (expand_spans db cl i j)). k = i \<or> Suc k = i \<or> k = Suc i"
    and "\<forall>k \<in> set (snd (expand_spans db cl i j)). k = j \<or> Suc k = j \<or> k = Suc j"
  using assms by (auto simp: expand_spans_def grown_i_def grown_j_def Let_def)

lemma detect_occ_cases:
  assumes "occ \<in> set (snd (detect_hiatus_in_text db inp iota K))"
  obtains i j k where "i < j" "j < length (line_clusters db (normalize_NFC db inp))"
    "classify_kind db (normalize_NFC db inp) (line_clusters db (normalize_NFC db inp)) i j = Some k"
    "i_index occ = i" "j_index occ = j"
    "vowel_i_indices occ = fst (expand_spans db (line_clusters db (normalize_NFC db inp)) i j)"
    "vowel_j_indices occ = snd (expand_spans db (line_clusters db (normalize_NFC db inp)) i j)"
proof -
  from detect_occD[OF assms] obtain raw i where
    occ: "occ = expand_occurrence db (line_clusters db (normalize_NFC db inp)) raw"
    and raw: "scan_start db (normalize_NFC db inp)
                (line_clusters db (normalize_NFC db inp)) iota K i = Some raw"
    by blast
  from scan_start_SomeD(2)[OF raw] obtain j k where
    "i < j" "j < length (line_clusters db (normalize_NFC db inp))"
    "classify_kind db (normalize_NFC db inp) (line_clusters db (normalize_NFC db inp)) i j = Some k"
    "raw = make_occurrence (normalize_NFC db inp) (line_clusters db (normalize_NFC db inp)) k i j"
    by blast
  with occ that[of i j k] show thesis by simp
qed

text \<open>
  Claim C4.  On a text that satisfies \<open>unicode_facts\<close>, each side's final vowel span of every
  occurrence holds at most two cluster indices: the boundary cluster \<open>i_index\<close> or \<open>j_index\<close>
  and at most one cluster adjacent to it.  (The right span is widened to the left only by a
  cluster strictly between \<open>i\<close> and \<open>j\<close>; such a cluster is not a vowel cluster, so its base
  letter starts no diphthong.)
\<close>

theorem vowel_spans_at_most_two:
  assumes "unicode_facts db (normalize_NFC db inp)"
  shows "\<forall>occ \<in> set (snd (detect_hiatus_in_text db inp iota K)).
           length (vowel_i_indices occ) \<le> 2 \<and> length (vowel_j_indices occ) \<le> 2
           \<and> i_index occ \<in> set (vowel_i_indices occ)
           \<and> j_index occ \<in> set (vowel_j_indices occ)
           \<and> (\<forall>k \<in> set (vowel_i_indices occ).
                 k = i_index occ \<or> Suc k = i_index occ \<or> k = Suc (i_index occ))
           \<and> (\<forall>k \<in> set (vowel_j_indices occ).
                 k = j_index occ \<or> Suc k = j_index occ \<or> k = Suc (j_index occ))"
proof
  fix occ
  assume "occ \<in> set (snd (detect_hiatus_in_text db inp iota K))"
  then obtain i j k where h: "i < j" "j < length (line_clusters db (normalize_NFC db inp))"
    "classify_kind db (normalize_NFC db inp) (line_clusters db (normalize_NFC db inp)) i j = Some k"
    "i_index occ = i" "j_index occ = j"
    "vowel_i_indices occ = fst (expand_spans db (line_clusters db (normalize_NFC db inp)) i j)"
    "vowel_j_indices occ = snd (expand_spans db (line_clusters db (normalize_NFC db inp)) i j)"
    by (rule detect_occ_cases)
  from grown_unicode(3)[OF assms h(1,2,3)]
       length_expand_spans[of db "line_clusters db (normalize_NFC db inp)" i j]
       expand_spans_adjacent[OF h(1), of db "line_clusters db (normalize_NFC db inp)"]
  show "length (vowel_i_indices occ) \<le> 2 \<and> length (vowel_j_indices occ) \<le> 2
           \<and> i_index occ \<in> set (vowel_i_indices occ)
           \<and> j_index occ \<in> set (vowel_j_indices occ)
           \<and> (\<forall>k \<in> set (vowel_i_indices occ).
                 k = i_index occ \<or> Suc k = i_index occ \<or> k = Suc (i_index occ))
           \<and> (\<forall>k \<in> set (vowel_j_indices occ).
                 k = j_index occ \<or> Suc k = j_index occ \<or> k = Suc (j_index occ))"
    unfolding h(4-7) by simp
qed

text \<open>The theorem on \<open>kai_eidon\<close>, where both spans reach the bound.\<close>

theorem vowel_spans_at_most_two_witness:
  "unicode_facts greek_ucd (normalize_NFC greek_ucd kai_eidon)
   \<and> map vowel_i_indices (snd (detect_hiatus_in_text greek_ucd kai_eidon False 8)) = [[1, 2]]
   \<and> map vowel_j_indices (snd (detect_hiatus_in_text greek_ucd kai_eidon False 8)) = [[4, 5]]
   \<and> list_all (\<lambda>occ. length (vowel_i_indices occ) \<le> 2 \<and> length (vowel_j_indices occ) \<le> 2)
        (snd (detect_hiatus_in_text greek_ucd kai_eidon False 8))"
proof -
  have u: "unicode_facts greek_ucd (normalize_NFC greek_ucd kai_eidon)"
    by code_simp
  have a: "map vowel_i_indices (snd (detect_hiatus_in_text greek_ucd kai_eidon False 8)) = [[1, 2]]"
    "map vowel_j_indices (snd (detect_hiatus_in_text greek_ucd kai_eidon False 8)) = [[4, 5]]"
    by code_simp+
  from vowel_spans_at_most_two[OF u, of False 8] u a
  show ?thesis unfolding list_all_iff by blast
qed

lemma expand_spans_disjoint:
  "set (fst (expand_spans db cl i j)) \<inter> set (snd (expand_spans db cl i j)) = {}"
  by (auto simp: expand_spans_def Let_def)

lemma grown_j_above:
  "i < j \<Longrightarrow> i \<notin> set (grown_j db cl i j)"
  by (auto simp: grown_j_def Let_def)




text \<open>
  Lines 226 to 228 on an arbitrary index pair \<open>i < j\<close> whose grown sets share an index: the
  left span is reset to \<open>[i]\<close> and the filter leaves the right span as it has grown.  By
  \<open>no_overlap_on_unicode_text\<close> this branch is not taken for an occurrence that the scanner
  reports on a text satisfying \<open>unicode_facts\<close>.
\<close>

lemma expand_spans_overlap_branch:
  assumes "i < j" "set (grown_i db cl i j) \<inter> set (grown_j db cl i j) \<noteq> {}"
  shows "expand_spans db cl i j = ([i], grown_j db cl i j)"
  using assms grown_j_above[of i j db cl]
  by (auto simp: expand_spans_def Let_def filter_id_conv)

text \<open>
  The example texts are strings over the code points of the table, and so are their NFC
  forms: each is its own NFC form, except \<open>aei_decomposed\<close>, which normalises to \<open>aei\<close>.
\<close>

lemma example_texts_in_fragment:
  "set (theou @ kai_eidon @ pneuma_hagion @ haides @ oide @ aei @ aei_decomposed @ praus)
     \<subseteq> set ucd_code_points
   \<and> map (normalize_NFC greek_ucd)
         [theou, kai_eidon, pneuma_hagion, haides, oide, aei, aei_decomposed, praus]
       = [theou, kai_eidon, pneuma_hagion, haides, oide, aei, aei, praus]"
  by code_simp

end
